theory Spec2Isabelle
  imports Main "HOL-Library.Sublist" "HOL-Library.Product_Lexorder"
begin

section \<open>Values exchanged with the client\<close>

text \<open>
  Request payloads (\<open>request.data\<close>) are dictionaries from field names to JSON scalars;
  serializer output (\<open>serializer.data\<close>) is an ordered dictionary, kept as an association
  list. Timestamps are microseconds since the epoch (UTC instants); \<open>JTime\<close> marks a
  timestamp in a response (rendered as an ISO string by the framework).
\<close>

datatype json = JNull | JBool bool | JInt int | JString string | JTime int

type_synonym payload = "string \<rightharpoonup> json"

type_synonym fields = "(string \<times> json) list"

datatype body =
    NoContent
  | Detail string
  | Data fields
  | Results nat "fields list"
  | Errors "string list"

datatype response = Response (status_code: nat) (data: body)

text \<open>The exceptions of the framework, as the responses its exception handler renders.\<close>

definition NotAuthenticated :: response where
  "NotAuthenticated = Response 401 (Detail ''Authentication credentials were not provided.'')"

definition PermissionDenied :: "string \<Rightarrow> response" where
  "PermissionDenied msg = Response 403 (Detail msg)"

definition Http404 :: response where
  "Http404 = Response 404 (Detail ''Not found.'')"

definition ValidationError :: "string list \<Rightarrow> response" where
  "ValidationError errs = Response 400 (Errors errs)"

definition MultipleObjectsReturned :: response where
  "MultipleObjectsReturned = Response 500 (Detail ''MultipleObjectsReturned'')"

definition default_denied :: string where
  "default_denied = ''You do not have permission to perform this action.''"

section \<open>Python strings and integers\<close>

definition digit_char :: "nat \<Rightarrow> char" where
  "digit_char d = ''0123456789'' ! d"

fun str_nat :: "nat \<Rightarrow> string" where
  "str_nat n = (if n < 10 then [digit_char n] else str_nat (n div 10) @ [digit_char (n mod 10)])"

declare str_nat.simps [simp del]

text \<open>\<open>str(i)\<close> for a Python integer.\<close>

definition str_int :: "int \<Rightarrow> string" where
  "str_int i = (if i < 0 then CHR ''-'' # str_nat (nat (- i)) else str_nat (nat i))"

definition digit_val :: "char \<Rightarrow> nat option" where
  "digit_val c = map_of (zip ''0123456789'' [0 ..< 10]) c"

text \<open>\<open>str.isspace\<close> on the first 256 code points, and \<open>s.strip()\<close>.\<close>

definition is_space :: "char \<Rightarrow> bool" where
  "is_space c = (c \<in> set [CHR '' '', CHR 0x09, CHR 0x0A, CHR 0x0B, CHR 0x0C, CHR 0x0D,
                           CHR 0x1C, CHR 0x1D, CHR 0x1E, CHR 0x1F, CHR 0x85, CHR 0xA0])"

definition strip :: "string \<Rightarrow> string" where
  "strip s = rev (dropWhile is_space (rev (dropWhile is_space s)))"

text \<open>
  \<open>int(s)\<close> on a string: whitespace around the number is dropped, a sign may come first,
  then decimal digits, where single underscores may stand between two digits; anything
  else is the \<open>ValueError\<close> (\<open>None\<close>). \<open>py_digits\<close> reads what follows the first digit.
\<close>

fun py_digits :: "nat \<Rightarrow> string \<Rightarrow> nat option" where
  "py_digits acc [] = Some acc"
| "py_digits acc (c # cs) =
     (if c = CHR ''_'' then
        (case cs of
           [] \<Rightarrow> None
         | d # ds \<Rightarrow> (case digit_val d of None \<Rightarrow> None | Some v \<Rightarrow> py_digits (10 * acc + v) ds))
      else (case digit_val c of None \<Rightarrow> None | Some v \<Rightarrow> py_digits (10 * acc + v) cs))"

definition py_nat :: "string \<Rightarrow> nat option" where
  "py_nat s =
     (case s of
        [] \<Rightarrow> None
      | c # cs \<Rightarrow> (case digit_val c of None \<Rightarrow> None | Some v \<Rightarrow> py_digits v cs))"

definition int_of_str :: "string \<Rightarrow> int option" where
  "int_of_str s =
     (case strip s of
        [] \<Rightarrow> None
      | c # cs \<Rightarrow>
          (if c = CHR ''-'' then map_option (\<lambda>n. - int n) (py_nat cs)
           else if c = CHR ''+'' then map_option int (py_nat cs)
           else map_option int (py_nat (c # cs))))"

section \<open>Models\<close>

text \<open>\<open>set_password\<close> stores a hash of the raw password; the hasher is kept abstract.\<close>

datatype credential = Raw string | Hashed string

record User =
  user_id :: int
  username :: string
  email :: string
  first_name :: string
  last_name :: string
  password :: credential
  is_staff :: bool
  is_superuser :: bool
  is_active :: bool

text \<open>\<open>Task\<close> (tasks/models.py); \<open>user\<close> is the foreign key, the owner's id.\<close>

record Task =
  task_id :: int
  user :: int
  description :: string
  completed :: bool
  creation_time :: int
  updated_at :: int


text \<open>\<open>Model.save\<close> of an existing row: \<open>auto_now\<close> stamps \<open>updated_at\<close>, and the row with the
  same primary key is replaced.\<close>

definition Task_save :: "int \<Rightarrow> Task \<Rightarrow> Task list \<Rightarrow> Task \<times> Task list" where
  "Task_save now self tbl =
     (let self' = self\<lparr>updated_at := now\<rparr>
      in (self', map (\<lambda>r. if task_id r = task_id self' then self' else r) tbl))"

text \<open>\<open>Task.toggle_completion\<close>\<close>

definition toggle_completion :: "int \<Rightarrow> Task \<Rightarrow> Task list \<Rightarrow> Task \<times> Task list" where
  "toggle_completion now self tbl = Task_save now (self\<lparr>completed := \<not> completed self\<rparr>) tbl"

section \<open>Permissions (permissions.py)\<close>

datatype principal = AnonymousUser | Authenticated User

datatype obj = TaskObj Task | UserObj User

text \<open>\<open>IsOwner.has_object_permission\<close>: a task has the attribute \<open>user\<close>, a user has not;
  model instances are equal when their primary keys are.\<close>

definition IsOwner :: "User \<Rightarrow> obj \<Rightarrow> bool" where
  "IsOwner request_user ob =
     (case ob of TaskObj t \<Rightarrow> user t = user_id request_user
               | UserObj u \<Rightarrow> user_id u = user_id request_user)"

text \<open>\<open>IsOwnerOrStaff.has_object_permission\<close>\<close>

definition IsOwnerOrStaff :: "User \<Rightarrow> obj \<Rightarrow> bool" where
  "IsOwnerOrStaff request_user ob =
     (if is_staff request_user then True else IsOwner request_user ob)"

text \<open>\<open>APIView.check_permissions\<close> with \<open>IsAuthenticated\<close> first: the object-level classes
  inherit \<open>has_permission = True\<close>.\<close>

definition check_permissions :: "principal \<Rightarrow> response + User" where
  "check_permissions p = (case p of AnonymousUser \<Rightarrow> Inl NotAuthenticated | Authenticated u \<Rightarrow> Inr u)"

section \<open>Task serializers (tasks/serializers.py)\<close>



text \<open>\<open>TaskSerializer\<close>, output side.\<close>

definition TaskSerializer :: "Task \<Rightarrow> fields" where
  "TaskSerializer t =
     [(''id'', JInt (task_id t)), (''description'', JString (description t)),
      (''completed'', JBool (completed t)), (''creation_time'', JTime (creation_time t)),
      (''updated_at'', JTime (updated_at t))]"

text \<open>
  The framework's \<open>CharField.run_validation\<close> (\<open>trim_whitespace\<close> on): the blank test comes
  first, then null, then the type test; numbers are coerced with \<open>str\<close>, and a null
  character is refused.
\<close>

datatype field_error = Required | Null | Blank | Invalid

definition CharField :: "bool \<Rightarrow> json \<Rightarrow> field_error + string" where
  "CharField allow_blank v =
     (case v of
        JString s \<Rightarrow>
          (if strip s = [] then (if allow_blank then Inr [] else Inl Blank)
           else if CHR 0x00 \<in> set s then Inl Invalid
           else Inr (strip s))
      | JInt i \<Rightarrow> Inr (str_int i)
      | JNull \<Rightarrow> Inl Null
      | _ \<Rightarrow> Inl Invalid)"

text \<open>
  \<open>TaskSerializer\<close>, input side. Only \<open>description\<close> is writable: \<open>id\<close> is the primary key
  and \<open>read_only_fields = ['creation_time', 'updated_at', 'completed']\<close>, so those keys of
  the payload are never read. The result is \<open>validated_data\<close>: the new description, if any.
\<close>

definition TaskSerializer_is_valid :: "bool \<Rightarrow> payload \<Rightarrow> response + string option" where
  "TaskSerializer_is_valid partial d =
     (case d ''description'' of
        None \<Rightarrow> (if partial then Inr None else Inl (ValidationError [''description'']))
      | Some v \<Rightarrow>
          (case CharField False v of
             Inl e \<Rightarrow> Inl (ValidationError [''description''])
           | Inr s \<Rightarrow> Inr (Some s)))"

section \<open>Task views (tasks/views.py)\<close>

text \<open>
  A view takes the principal, the key from the URL (an integer: the route is
  \<open><int:pk>\<close>), the payload and the table of tasks, and returns the response with the table
  after the request. The views also write log lines; these change neither the response nor
  the table and are left out. \<open>now\<close> is the clock reading of the request.
\<close>

text \<open>\<open>get_queryset\<close> of every task view: \<open>Task.objects.filter(user=self.request.user)\<close>.\<close>

definition get_queryset :: "User \<Rightarrow> Task list \<Rightarrow> Task list" where
  "get_queryset request_user tbl = filter (\<lambda>t. user t = user_id request_user) tbl"

text \<open>\<open>get_object_or_404(queryset, pk=pk)\<close>; \<open>key\<close> reads the primary key of a row.\<close>

definition get_object_or_404 :: "('a \<Rightarrow> int) \<Rightarrow> 'a list \<Rightarrow> int \<Rightarrow> response + 'a" where
  "get_object_or_404 key qs pk =
     (case filter (\<lambda>t. key t = pk) qs of
        [] \<Rightarrow> Inl Http404
      | [t] \<Rightarrow> Inr t
      | _ \<Rightarrow> Inl MultipleObjectsReturned)"

text \<open>\<open>GenericAPIView.get_object\<close> with \<open>permission_classes = [IsAuthenticated, IsOwner]\<close>:
  look the key up in the view's queryset, then check the object permission.\<close>

definition get_object :: "User \<Rightarrow> Task list \<Rightarrow> int \<Rightarrow> response + Task" where
  "get_object request_user tbl pk =
     (case get_object_or_404 task_id (get_queryset request_user tbl) pk of
        Inl r \<Rightarrow> Inl r
      | Inr t \<Rightarrow>
          (if IsOwner request_user (TaskObj t) then Inr t else Inl (PermissionDenied default_denied)))"

text \<open>\<open>TaskDetailView.retrieve\<close> (GET)\<close>

definition TaskDetailView :: "principal \<Rightarrow> int \<Rightarrow> Task list \<Rightarrow> response \<times> Task list" where
  "TaskDetailView p pk tbl =
     (case check_permissions p of
        Inl r \<Rightarrow> (r, tbl)
      | Inr u \<Rightarrow>
          (case get_object u tbl pk of
             Inl r \<Rightarrow> (r, tbl)
           | Inr t \<Rightarrow> (Response 200 (Data (TaskSerializer t)), tbl)))"

text \<open>\<open>TaskCreateView\<close> (POST): \<open>perform_create\<close> saves with \<open>user=request.user\<close>;
  \<open>completed\<close> takes the model's default, both timestamps are set by the model.
  \<open>new_id\<close> is the primary key the sequence of the database gives the new row.\<close>

definition TaskCreateView ::
  "int \<Rightarrow> int \<Rightarrow> principal \<Rightarrow> payload \<Rightarrow> Task list \<Rightarrow> response \<times> Task list" where
  "TaskCreateView now new_id p d tbl =
     (case check_permissions p of
        Inl r \<Rightarrow> (r, tbl)
      | Inr u \<Rightarrow>
          (case TaskSerializer_is_valid False d of
             Inl r \<Rightarrow> (r, tbl)
           | Inr vd \<Rightarrow>
               (let t = \<lparr>task_id = new_id, user = user_id u,
                         description = (case vd of Some s \<Rightarrow> s | None \<Rightarrow> []),
                         completed = False, creation_time = now, updated_at = now\<rparr>
                in (Response 201 (Data (TaskSerializer t)), tbl @ [t]))))"

text \<open>\<open>TaskUpdateDescriptionView.update\<close> (PATCH, so \<open>partial=True\<close>): the view fetches the
  object, then \<open>UpdateModelMixin.update\<close> fetches it again, validates and saves.\<close>

definition TaskUpdateDescriptionView ::
  "int \<Rightarrow> principal \<Rightarrow> int \<Rightarrow> payload \<Rightarrow> Task list \<Rightarrow> response \<times> Task list" where
  "TaskUpdateDescriptionView now p pk d tbl =
     (case check_permissions p of
        Inl r \<Rightarrow> (r, tbl)
      | Inr u \<Rightarrow>
          (case get_object u tbl pk of
             Inl r \<Rightarrow> (r, tbl)
           | Inr task \<Rightarrow>
               (case get_object u tbl pk of
                  Inl r \<Rightarrow> (r, tbl)
                | Inr instance \<Rightarrow>
                    (case TaskSerializer_is_valid True d of
                       Inl r \<Rightarrow> (r, tbl)
                     | Inr vd \<Rightarrow>
                         (let instance' = (case vd of Some s \<Rightarrow> instance\<lparr>description := s\<rparr>
                                                     | None \<Rightarrow> instance);
                              (saved, tbl') = Task_save now instance' tbl
                          in (Response 200 (Data (TaskSerializer saved)), tbl'))))))"

text \<open>\<open>TaskToggleCompletionView.update\<close> (PATCH)\<close>

definition TaskToggleCompletionView ::
  "int \<Rightarrow> principal \<Rightarrow> int \<Rightarrow> Task list \<Rightarrow> response \<times> Task list" where
  "TaskToggleCompletionView now p pk tbl =
     (case check_permissions p of
        Inl r \<Rightarrow> (r, tbl)
      | Inr u \<Rightarrow>
          (case get_object u tbl pk of
             Inl r \<Rightarrow> (r, tbl)
           | Inr task \<Rightarrow>
               (let (task', tbl') = toggle_completion now task tbl
                in (Response 200 (Data (TaskSerializer task')), tbl'))))"

text \<open>\<open>TaskDeleteView.destroy\<close> (DELETE): the view fetches the object for its log line, then
  \<open>DestroyModelMixin.destroy\<close> fetches it again and deletes the row.\<close>

definition TaskDeleteView :: "principal \<Rightarrow> int \<Rightarrow> Task list \<Rightarrow> response \<times> Task list" where
  "TaskDeleteView p pk tbl =
     (case check_permissions p of
        Inl r \<Rightarrow> (r, tbl)
      | Inr u \<Rightarrow>
          (case get_object u tbl pk of
             Inl r \<Rightarrow> (r, tbl)
           | Inr task \<Rightarrow>
               (case get_object u tbl pk of
                  Inl r \<Rightarrow> (r, tbl)
                | Inr instance \<Rightarrow>
                    (Response 204 NoContent, filter (\<lambda>r. task_id r \<noteq> task_id instance) tbl))))"

section \<open>Task filters (tasks/filters.py)\<close>

text \<open>
  The lookups of the ORM on text. Case is folded on the ASCII letters; the regular
  expression engine is the database's and is a parameter (\<open>iregex pattern text\<close>).
\<close>

definition lower_char :: "char \<Rightarrow> char" where
  "lower_char c =
     (case map_of (zip ''ABCDEFGHIJKLMNOPQRSTUVWXYZ'' ''abcdefghijklmnopqrstuvwxyz'') c of
        Some l \<Rightarrow> l | None \<Rightarrow> c)"

definition lower :: "string \<Rightarrow> string" where
  "lower s = map lower_char s"

definition iexact :: "string \<Rightarrow> string \<Rightarrow> bool" where
  "iexact v text = (lower text = lower v)"

definition icontains :: "string \<Rightarrow> string \<Rightarrow> bool" where
  "icontains v text = sublist (lower v) (lower text)"

definition istartswith :: "string \<Rightarrow> string \<Rightarrow> bool" where
  "istartswith v text = prefix (lower v) (lower text)"

text \<open>
  The time zone (\<open>timezone.get_current_timezone()\<close>, named in the settings): \<open>utcoffset\<close>
  gives the offset of a local wall-clock time and \<open>fromutc\<close> the wall-clock time of an
  instant, both in microseconds. A date is a day number, \<open>combine d t\<close> the naive datetime
  at time of day \<open>t\<close>.
\<close>

record tzinfo =
  utcoffset :: "int \<Rightarrow> int"
  fromutc :: "int \<Rightarrow> int"

definition day :: int where
  "day = 86400000000"

definition time_min :: int where
  "time_min = 0"

text \<open>\<open>time.max\<close> is 23:59:59.999999.\<close>

definition time_max :: int where
  "time_max = 86399999999"

definition combine :: "int \<Rightarrow> int \<Rightarrow> int" where
  "combine date_value t = date_value * day + t"

text \<open>\<open>timezone.make_aware(naive, tz)\<close>, as the instant it denotes.\<close>

definition make_aware :: "tzinfo \<Rightarrow> int \<Rightarrow> int" where
  "make_aware tz naive = naive - utcoffset tz naive"

text \<open>The \<open>__date\<close> transform: the calendar date of an instant in the current time zone.\<close>

definition local_date :: "tzinfo \<Rightarrow> int \<Rightarrow> int" where
  "local_date tz instant = fromutc tz instant div day"

text \<open>\<open>DateFilter._get_day_range\<close>\<close>

definition get_day_range :: "tzinfo \<Rightarrow> int \<Rightarrow> int \<times> int" where
  "get_day_range tz date_value =
     (let start_of_day = make_aware tz (combine date_value time_min);
          end_of_day = make_aware tz (combine date_value time_max)
      in (start_of_day, end_of_day))"

text \<open>\<open>DateFilter.filter_created_on\<close>: \<open>creation_time__range\<close> is SQL \<open>BETWEEN\<close>, inclusive
  at both ends.\<close>

definition filter_created_on :: "tzinfo \<Rightarrow> Task list \<Rightarrow> int \<Rightarrow> Task list" where
  "filter_created_on tz queryset val =
     (let (start_of_day, end_of_day) = get_day_range tz val
      in filter (\<lambda>t. start_of_day \<le> creation_time t \<and> creation_time t \<le> end_of_day) queryset)"

text \<open>
  The cleaned form data of \<open>TaskFilter\<close>, one entry per declared filter, \<open>None\<close> when the
  parameter is not in the query string. A raw value that does not clean (an invalid
  date) is answered 400 by the filter backend before the filter set runs.
\<close>

record TaskFilter_data =
  q_description :: "string option"
  q_description__contains :: "string option"
  q_description__startswith :: "string option"
  q_description__regex :: "string option"
  q_created_after :: "int option"
  q_created_before :: "int option"
  q_created_on :: "int option"
  q_completed :: "bool option"

definition no_filters :: TaskFilter_data where
  "no_filters = \<lparr>q_description = None, q_description__contains = None,
     q_description__startswith = None, q_description__regex = None, q_created_after = None,
     q_created_before = None, q_created_on = None, q_completed = None\<rparr>"

text \<open>
  \<open>Filter.filter\<close> of the filter library: an empty value (\<open>None\<close> or the empty string)
  returns the queryset unchanged, any other value narrows it by the lookup.
\<close>

definition CharFilter :: "(string \<Rightarrow> 'a \<Rightarrow> bool) \<Rightarrow> string option \<Rightarrow> 'a list \<Rightarrow> 'a list" where
  "CharFilter lookup val qs =
     (case val of None \<Rightarrow> qs | Some v \<Rightarrow> if v = [] then qs else filter (lookup v) qs)"

definition ValueFilter :: "('v \<Rightarrow> 'a \<Rightarrow> bool) \<Rightarrow> 'v option \<Rightarrow> 'a list \<Rightarrow> 'a list" where
  "ValueFilter lookup val qs = (case val of None \<Rightarrow> qs | Some v \<Rightarrow> filter (lookup v) qs)"

definition MethodFilter :: "('a list \<Rightarrow> 'v \<Rightarrow> 'a list) \<Rightarrow> 'v option \<Rightarrow> 'a list \<Rightarrow> 'a list" where
  "MethodFilter method val qs = (case val of None \<Rightarrow> qs | Some v \<Rightarrow> method qs v)"

text \<open>\<open>TaskFilter.filter_queryset\<close>: \<open>FilterSet.filter_queryset\<close> applies the filters one after
  the other, in the order of \<open>Meta.fields\<close>.\<close>

definition TaskFilter ::
  "tzinfo \<Rightarrow> (string \<Rightarrow> string \<Rightarrow> bool) \<Rightarrow> TaskFilter_data \<Rightarrow> Task list \<Rightarrow> Task list" where
  "TaskFilter tz iregex cd queryset =
     (let qs1 = CharFilter (\<lambda>v t. iexact v (description t)) (q_description cd) queryset;
          qs2 = CharFilter (\<lambda>v t. icontains v (description t)) (q_description__contains cd) qs1;
          qs3 = CharFilter (\<lambda>v t. istartswith v (description t)) (q_description__startswith cd) qs2;
          qs4 = CharFilter (\<lambda>v t. iregex v (description t)) (q_description__regex cd) qs3;
          qs5 = ValueFilter (\<lambda>v t. v \<le> local_date tz (creation_time t)) (q_created_after cd) qs4;
          qs6 = ValueFilter (\<lambda>v t. local_date tz (creation_time t) \<le> v) (q_created_before cd) qs5;
          qs7 = MethodFilter (filter_created_on tz) (q_created_on cd) qs6;
          qs8 = ValueFilter (\<lambda>v t. completed t = v) (q_completed cd) qs7
      in qs8)"

text \<open>
  Page-number pagination; the page size comes from the settings. A page outside
  \<open>1 .. num_pages\<close> is answered 404.
\<close>

definition paginate :: "nat \<Rightarrow> nat \<Rightarrow> fields list \<Rightarrow> response" where
  "paginate page_size page items =
     (let count = length items;
          num_pages = (if count = 0 then 1 else (count + page_size - 1) div page_size)
      in if page < 1 \<or> num_pages < page then Response 404 (Detail ''Invalid page.'')
         else Response 200 (Results count (take page_size (drop ((page - 1) * page_size) items))))"



section \<open>User serializers (users/serializers.py)\<close>

text \<open>
  The validators the serializers call but the settings and the framework define: the
  e-mail and username syntax and \<open>validate_password\<close>.
\<close>

record validators =
  validate_email :: "string \<Rightarrow> bool"
  validate_username :: "string \<Rightarrow> bool"
  validate_password :: "string \<Rightarrow> bool"

text \<open>A field's validators run on a non-empty value only.\<close>

definition run_validators ::
  "nat option \<Rightarrow> (string \<Rightarrow> bool) \<Rightarrow> field_error + string \<Rightarrow> field_error + string" where
  "run_validators max_length ok r =
     (case r of
        Inl e \<Rightarrow> Inl e
      | Inr s \<Rightarrow>
          (if s = [] then Inr s
           else if (case max_length of Some m \<Rightarrow> m < length s | None \<Rightarrow> False) \<or> \<not> ok s
           then Inl Invalid else Inr s))"

text \<open>A key missing from the payload: skipped on a partial update and for a field that
  is not required, an error otherwise.\<close>

definition get_value :: "bool \<Rightarrow> bool \<Rightarrow> (json \<Rightarrow> field_error + 'a) \<Rightarrow> json option \<Rightarrow> field_error + 'a option" where
  "get_value partial required field v =
     (case v of
        None \<Rightarrow> (if partial \<or> \<not> required then Inr None else Inl Required)
      | Some x \<Rightarrow> (case field x of Inl e \<Rightarrow> Inl e | Inr y \<Rightarrow> Inr (Some y)))"

definition BooleanField :: "json \<Rightarrow> field_error + bool" where
  "BooleanField v =
     (case v of
        JBool b \<Rightarrow> Inr b
      | JString s \<Rightarrow>
          (if s \<in> set [''t'', ''T'', ''y'', ''Y'', ''yes'', ''Yes'', ''YES'', ''true'', ''True'', ''TRUE'',
                        ''on'', ''On'', ''ON'', ''1''] then Inr True
           else if s \<in> set [''f'', ''F'', ''n'', ''N'', ''no'', ''No'', ''NO'', ''false'', ''False'', ''FALSE'',
                        ''off'', ''Off'', ''OFF'', ''0''] then Inr False
           else Inl Invalid)
      | JInt i \<Rightarrow> (if i = 1 then Inr True else if i = 0 then Inr False else Inl Invalid)
      | JNull \<Rightarrow> Inl Null
      | JTime _ \<Rightarrow> Inl Invalid)"

definition is_error :: "'e + 'a \<Rightarrow> bool" where
  "is_error r = (case r of Inl _ \<Rightarrow> True | Inr _ \<Rightarrow> False)"

definition errors_of :: "(string \<times> bool) list \<Rightarrow> string list" where
  "errors_of named = map fst (filter snd named)"

text \<open>\<open>PasswordSerializer.password\<close>: a declared field, hence required and not blank.\<close>

definition password_field :: "validators \<Rightarrow> json \<Rightarrow> field_error + string" where
  "password_field V v = run_validators None (validate_password V) (CharField False v)"

text \<open>The fields the model serializer derives from the user model: \<open>email\<close>,
  \<open>first_name\<close> and \<open>last_name\<close> may be blank and are not required.\<close>

definition email_field :: "validators \<Rightarrow> json \<Rightarrow> field_error + string" where
  "email_field V v = run_validators (Some 254) (validate_email V) (CharField True v)"

definition name_field :: "json \<Rightarrow> field_error + string" where
  "name_field v = run_validators (Some 150) (\<lambda>s. True) (CharField True v)"

text \<open>\<open>UserUpdateSerializer\<close>: \<open>fields = ['email', 'first_name', 'last_name', 'password']\<close>.\<close>

record UserUpdate_validated =
  vd_email :: "string option"
  vd_first_name :: "string option"
  vd_last_name :: "string option"
  vd_password :: "string option"

definition UserUpdateSerializer_is_valid ::
  "validators \<Rightarrow> bool \<Rightarrow> payload \<Rightarrow> response + UserUpdate_validated" where
  "UserUpdateSerializer_is_valid V partial d =
     (let e = get_value partial False (email_field V) (d ''email'');
          f = get_value partial False name_field (d ''first_name'');
          l = get_value partial False name_field (d ''last_name'');
          p = get_value partial True (password_field V) (d ''password'')
      in case (e, f, l, p) of
           (Inr e', Inr f', Inr l', Inr p') \<Rightarrow>
             Inr \<lparr>vd_email = e', vd_first_name = f', vd_last_name = l', vd_password = p'\<rparr>
         | _ \<Rightarrow>
             Inl (ValidationError (errors_of [(''email'', is_error e), (''first_name'', is_error f),
                    (''last_name'', is_error l), (''password'', is_error p)])))"

text \<open>\<open>Model.save\<close> of an existing user.\<close>

definition User_save :: "User \<Rightarrow> User list \<Rightarrow> User list" where
  "User_save self tbl = map (\<lambda>r. if user_id r = user_id self then self else r) tbl"

text \<open>\<open>UserUpdateSerializer.update\<close>: the password is popped, the remaining validated
  attributes are set, the password goes through \<open>set_password\<close>, the instance is saved.\<close>

definition UserUpdateSerializer_update ::
  "User \<Rightarrow> UserUpdate_validated \<Rightarrow> User list \<Rightarrow> User \<times> User list" where
  "UserUpdateSerializer_update instance vd tbl =
     (let i1 = (case vd_email vd of Some v \<Rightarrow> instance\<lparr>email := v\<rparr> | None \<Rightarrow> instance);
          i2 = (case vd_first_name vd of Some v \<Rightarrow> i1\<lparr>first_name := v\<rparr> | None \<Rightarrow> i1);
          i3 = (case vd_last_name vd of Some v \<Rightarrow> i2\<lparr>last_name := v\<rparr> | None \<Rightarrow> i2);
          i4 = (case vd_password vd of Some pw \<Rightarrow> i3\<lparr>password := Hashed pw\<rparr> | None \<Rightarrow> i3)
      in (i4, User_save i4 tbl))"

text \<open>Output of \<open>UserUpdateSerializer\<close>: the password is write-only.\<close>

definition UserUpdateSerializer :: "User \<Rightarrow> fields" where
  "UserUpdateSerializer u =
     [(''email'', JString (email u)), (''first_name'', JString (first_name u)),
      (''last_name'', JString (last_name u))]"

definition UserSerializer :: "User \<Rightarrow> fields" where
  "UserSerializer u =
     [(''id'', JInt (user_id u)), (''username'', JString (username u)), (''email'', JString (email u)),
      (''first_name'', JString (first_name u)), (''last_name'', JString (last_name u))]"

text \<open>\<open>UserCreateSerializer\<close>: \<open>fields = ['username', 'email', 'first_name', 'last_name',
  'password', 'is_active']\<close> with \<open>is_active = BooleanField(default=True)\<close>; the username
  carries the model's uniqueness validator.\<close>

record UserCreate_validated =
  vc_username :: string
  vc_email :: "string option"
  vc_first_name :: "string option"
  vc_last_name :: "string option"
  vc_password :: string
  vc_is_active :: bool

definition username_field :: "validators \<Rightarrow> User list \<Rightarrow> json \<Rightarrow> field_error + string" where
  "username_field V tbl v =
     run_validators (Some 150) (\<lambda>s. validate_username V s \<and> s \<notin> set (map username tbl))
       (CharField False v)"

definition UserCreateSerializer_is_valid ::
  "validators \<Rightarrow> User list \<Rightarrow> payload \<Rightarrow> response + UserCreate_validated" where
  "UserCreateSerializer_is_valid V tbl d =
     (let n = get_value False True (username_field V tbl) (d ''username'');
          e = get_value False False (email_field V) (d ''email'');
          f = get_value False False name_field (d ''first_name'');
          l = get_value False False name_field (d ''last_name'');
          p = get_value False True (password_field V) (d ''password'');
          a = get_value False False BooleanField (d ''is_active'')
      in case (n, e, f, l, p, a) of
           (Inr (Some n'), Inr e', Inr f', Inr l', Inr (Some p'), Inr a') \<Rightarrow>
             Inr \<lparr>vc_username = n', vc_email = e', vc_first_name = f', vc_last_name = l',
                  vc_password = p', vc_is_active = (case a' of None \<Rightarrow> True | Some b \<Rightarrow> b)\<rparr>
         | _ \<Rightarrow>
             Inl (ValidationError (errors_of [(''username'', is_error n), (''email'', is_error e),
                    (''first_name'', is_error f), (''last_name'', is_error l),
                    (''password'', is_error p), (''is_active'', is_error a)])))"

text \<open>\<open>ModelSerializer.create\<close>: \<open>User.objects.create(**validated_data)\<close>; the attributes
  that are not given take the model's defaults, the role flags among them; \<open>new_id\<close> is
  the primary key the sequence of the database gives the new row.\<close>

definition UserCreateSerializer_create :: "UserCreate_validated \<Rightarrow> int \<Rightarrow> User" where
  "UserCreateSerializer_create vd new_id =
     \<lparr>user_id = new_id, username = vc_username vd,
      email = (case vc_email vd of Some v \<Rightarrow> v | None \<Rightarrow> []),
      first_name = (case vc_first_name vd of Some v \<Rightarrow> v | None \<Rightarrow> []),
      last_name = (case vc_last_name vd of Some v \<Rightarrow> v | None \<Rightarrow> []),
      password = Raw (vc_password vd), is_staff = False, is_superuser = False,
      is_active = vc_is_active vd\<rparr>"

definition UserCreateSerializer :: "User \<Rightarrow> fields" where
  "UserCreateSerializer u =
     [(''username'', JString (username u)), (''email'', JString (email u)),
      (''first_name'', JString (first_name u)), (''last_name'', JString (last_name u)),
      (''is_active'', JBool (is_active u))]"

section \<open>User views (users/views.py)\<close>

record database =
  users :: "User list"
  tasks :: "Task list"

text \<open>\<open>UserRegistrationViewSet.create\<close> (POST, \<open>AllowAny\<close>)\<close>

definition UserRegistrationViewSet ::
  "validators \<Rightarrow> int \<Rightarrow> payload \<Rightarrow> database \<Rightarrow> response \<times> database" where
  "UserRegistrationViewSet V new_id d db =
     (case UserCreateSerializer_is_valid V (users db) d of
        Inl r \<Rightarrow> (r, db)
      | Inr vd \<Rightarrow>
          (let instance = UserCreateSerializer_create vd new_id
           in (Response 201 (Data (UserCreateSerializer instance)),
               db\<lparr>users := users db @ [instance]\<rparr>)))"

text \<open>\<open>get_object\<close> of \<open>UserProfileViewSet\<close>: \<open>queryset = User.objects.all()\<close>,
  \<open>permission_classes = [IsAuthenticated, IsOwnerOrStaff]\<close>. The key is the URL segment,
  a string; one that is not an integer gives 404.\<close>

definition User_get_object :: "User \<Rightarrow> User list \<Rightarrow> string \<Rightarrow> response + User" where
  "User_get_object request_user tbl pk =
     (case int_of_str pk of
        None \<Rightarrow> Inl Http404
      | Some k \<Rightarrow>
          (case get_object_or_404 user_id tbl k of
             Inl r \<Rightarrow> Inl r
           | Inr x \<Rightarrow>
               (if IsOwnerOrStaff request_user (UserObj x) then Inr x
                else Inl (PermissionDenied default_denied))))"

text \<open>\<open>UserProfileViewSet.retrieve\<close> (GET)\<close>

definition UserProfileViewSet_retrieve :: "principal \<Rightarrow> string \<Rightarrow> database \<Rightarrow> response \<times> database" where
  "UserProfileViewSet_retrieve p requested_user_id db =
     (case check_permissions p of
        Inl r \<Rightarrow> (r, db)
      | Inr u \<Rightarrow>
          (if \<not> is_staff u \<and> str_int (user_id u) \<noteq> requested_user_id
           then (PermissionDenied ''You do not have permission to access this profile.'', db)
           else (case User_get_object u (users db) requested_user_id of
                   Inl r \<Rightarrow> (r, db)
                 | Inr x \<Rightarrow> (Response 200 (Data (UserSerializer x)), db))))"

text \<open>\<open>UserProfileViewSet.update\<close> and \<open>partial_update\<close> (PUT and PATCH): both run
  \<open>UpdateModelMixin.update\<close> with \<open>UserUpdateSerializer\<close>, PATCH with \<open>partial=True\<close>.\<close>

definition UserProfileViewSet_update ::
  "validators \<Rightarrow> bool \<Rightarrow> principal \<Rightarrow> string \<Rightarrow> payload \<Rightarrow> database \<Rightarrow> response \<times> database" where
  "UserProfileViewSet_update V partial p pk d db =
     (case check_permissions p of
        Inl r \<Rightarrow> (r, db)
      | Inr u \<Rightarrow>
          (case User_get_object u (users db) pk of
             Inl r \<Rightarrow> (r, db)
           | Inr instance \<Rightarrow>
               (case UserUpdateSerializer_is_valid V partial d of
                  Inl r \<Rightarrow> (r, db)
                | Inr vd \<Rightarrow>
                    (let (instance', tbl') = UserUpdateSerializer_update instance vd (users db)
                     in (Response 200 (Data (UserUpdateSerializer instance')), db\<lparr>users := tbl'\<rparr>)))))"

text \<open>\<open>UserProfileViewSet.destroy\<close> (DELETE): the object is fetched for the log line and
  again by \<open>DestroyModelMixin.destroy\<close>; deleting a user cascades to the tasks it owns.\<close>

definition UserProfileViewSet_destroy :: "principal \<Rightarrow> string \<Rightarrow> database \<Rightarrow> response \<times> database" where
  "UserProfileViewSet_destroy p pk db =
     (case check_permissions p of
        Inl r \<Rightarrow> (r, db)
      | Inr u \<Rightarrow>
          (case User_get_object u (users db) pk of
             Inl r \<Rightarrow> (r, db)
           | Inr user_to_delete \<Rightarrow>
               (case User_get_object u (users db) pk of
                  Inl r \<Rightarrow> (r, db)
                | Inr instance \<Rightarrow>
                    (Response 204 NoContent,
                     \<lparr>users = filter (\<lambda>r. user_id r \<noteq> user_id instance) (users db),
                      tasks = filter (\<lambda>t. user t \<noteq> user_id instance) (tasks db)\<rparr>))))"

text \<open>\<open>UserListViewSet.get_queryset\<close>\<close>

definition UserList_get_queryset :: "User \<Rightarrow> User list \<Rightarrow> User list" where
  "UserList_get_queryset request_user tbl =
     (if is_staff request_user \<or> is_superuser request_user then tbl
      else filter (\<lambda>x. user_id x = user_id request_user) tbl)"

text \<open>\<open>UserFilter\<close> (users/filters.py)\<close>

record UserFilter_data =
  q_username :: "string option"
  q_email :: "string option"

definition UserFilter :: "UserFilter_data \<Rightarrow> User list \<Rightarrow> User list" where
  "UserFilter cd queryset =
     (let qs1 = CharFilter (\<lambda>v x. icontains v (username x)) (q_username cd) queryset;
          qs2 = CharFilter (\<lambda>v x. icontains v (email x)) (q_email cd) qs1
      in qs2)"

text \<open>\<open>UserListViewSet.list\<close> (GET)\<close>

definition UserListViewSet :: "nat \<Rightarrow> principal \<Rightarrow> UserFilter_data \<Rightarrow> nat \<Rightarrow> User list \<Rightarrow> response" where
  "UserListViewSet page_size p cd page tbl =
     (case check_permissions p of
        Inl r \<Rightarrow> r
      | Inr u \<Rightarrow>
          paginate page_size page (map UserSerializer (UserFilter cd (UserList_get_queryset u tbl))))"

section \<open>Sample data\<close>

text \<open>Users, tasks, payloads, a validator configuration and two time zones on which the
  theorems below are run.\<close>

definition alice :: User where
  "alice = \<lparr>user_id = 1, username = ''alice'', email = ''alice@example.com'', first_name = ''Alice'',
     last_name = ''A'', password = Hashed ''pw-alice'', is_staff = False, is_superuser = False,
     is_active = True\<rparr>"

definition bob :: User where
  "bob = \<lparr>user_id = 2, username = ''bob'', email = ''bob@example.com'', first_name = ''Bob'',
     last_name = ''B'', password = Hashed ''pw-bob'', is_staff = False, is_superuser = False,
     is_active = True\<rparr>"

definition milk :: Task where
  "milk = \<lparr>task_id = 7, user = 1, description = ''Buy milk'', completed = False,
     creation_time = 1000, updated_at = 1000\<rparr>"


definition utc :: tzinfo where
  "utc = \<lparr>utcoffset = (\<lambda>_. 0), fromutc = (\<lambda>i. i)\<rparr>"

definition groceries :: Task where
  "groceries = \<lparr>task_id = 1, user = 1, description = ''Buy groceries'', completed = True,
     creation_time = 100, updated_at = 100\<rparr>"

definition laptop :: Task where
  "laptop = \<lparr>task_id = 2, user = 1, description = ''buy new laptop'', completed = False,
     creation_time = 200, updated_at = 200\<rparr>"

definition plumber :: Task where
  "plumber = \<lparr>task_id = 3, user = 1, description = ''Call plumber'', completed = True,
     creation_time = 300, updated_at = 300\<rparr>"




definition carol :: User where
  "carol = \<lparr>user_id = 3, username = ''carol'', email = ''carol@example.com'', first_name = ''Carol'',
     last_name = ''C'', password = Hashed ''pw-carol'', is_staff = True, is_superuser = False,
     is_active = True\<rparr>"

definition db0 :: database where
  "db0 = \<lparr>users = [alice, bob, carol], tasks = [milk]\<rparr>"

definition V0 :: validators where
  "V0 = \<lparr>validate_email = (\<lambda>s. CHR ''@'' \<in> set s), validate_username = (\<lambda>s. True),
     validate_password = (\<lambda>s. 8 \<le> length s)\<rparr>"

definition no_user_filters :: UserFilter_data where
  "no_user_filters = \<lparr>q_username = None, q_email = None\<rparr>"

definition signup :: payload where
  "signup = [''username'' \<mapsto> JString ''dave'', ''email'' \<mapsto> JString ''dave@example.com'',
     ''password'' \<mapsto> JString ''StrongP@ssword123'']"

definition dave :: User where
  "dave = \<lparr>user_id = 4, username = ''dave'', email = ''dave@example.com'', first_name = '''',
     last_name = '''', password = Raw ''StrongP@ssword123'', is_staff = False, is_superuser = False,
     is_active = True\<rparr>"

definition escalate :: payload where
  "escalate = [''is_staff'' \<mapsto> JBool True, ''is_superuser'' \<mapsto> JBool True]"

section \<open>Looking up a task\<close>

lemma filter_key_distinct:
  "distinct (map f xs) \<Longrightarrow> x \<in> set xs \<Longrightarrow> filter (\<lambda>y. f y = f x) xs = [x]"
proof (induction xs)
  case Nil
  then show ?case by simp
next
  case (Cons a xs)
  show ?case
  proof (cases "a = x")
    case True
    with Cons.prems have "\<forall>y\<in>set xs. f y \<noteq> f x" by (auto simp: image_iff)
    then have "filter (\<lambda>y. f y = f x) xs = []" by (simp add: filter_empty_conv)
    with True show ?thesis by simp
  next
    case False
    with Cons.prems have "x \<in> set xs" by simp
    with Cons.prems have "f a \<noteq> f x" by (auto simp: image_iff)
    with Cons \<open>x \<in> set xs\<close> show ?thesis by simp
  qed
qed

lemma get_object_or_404_found:
  "distinct (map key qs) \<Longrightarrow> x \<in> set qs \<Longrightarrow> get_object_or_404 key qs (key x) = Inr x"
  by (simp add: get_object_or_404_def filter_key_distinct)

lemma get_object_or_404_missing:
  "\<forall>x\<in>set qs. key x \<noteq> pk \<Longrightarrow> get_object_or_404 key qs pk = Inl Http404"
proof -
  assume "\<forall>x\<in>set qs. key x \<noteq> pk"
  then have "filter (\<lambda>t. key t = pk) qs = []" by (simp add: filter_empty_conv)
  then show ?thesis by (simp add: get_object_or_404_def)
qed

lemma distinct_get_queryset:
  "distinct (map task_id tbl) \<Longrightarrow> distinct (map task_id (get_queryset u tbl))"
  by (simp add: get_queryset_def distinct_map_filter)

lemma get_object_owner:
  assumes "distinct (map task_id tbl)" "t \<in> set tbl" "user t = user_id u"
  shows "get_object u tbl (task_id t) = Inr t"
proof -
  have "t \<in> set (get_queryset u tbl)" using assms by (simp add: get_queryset_def)
  then have "get_object_or_404 task_id (get_queryset u tbl) (task_id t) = Inr t"
    using assms(1) by (simp add: get_object_or_404_found distinct_get_queryset)
  then show ?thesis using assms(3) by (simp add: get_object_def IsOwner_def)
qed

lemma get_object_masked:
  assumes "\<forall>t\<in>set tbl. task_id t = pk \<longrightarrow> user t \<noteq> user_id u"
  shows "get_object u tbl pk = Inl Http404"
proof -
  have "\<forall>x\<in>set (get_queryset u tbl). task_id x \<noteq> pk"
    using assms by (auto simp: get_queryset_def)
  then show ?thesis by (simp add: get_object_def get_object_or_404_missing)
qed

lemma get_object_is_owned:
  "get_object u tbl pk = Inr t \<Longrightarrow> t \<in> set tbl \<and> task_id t = pk \<and> user t = user_id u"
proof -
  assume a: "get_object u tbl pk = Inr t"
  then have "get_object_or_404 task_id (get_queryset u tbl) pk = Inr t"
    by (auto simp: get_object_def split: sum.splits if_splits)
  then have "filter (\<lambda>x. task_id x = pk) (get_queryset u tbl) = [t]"
    by (auto simp: get_object_or_404_def split: list.splits)
  then have "t \<in> set (filter (\<lambda>x. task_id x = pk) (get_queryset u tbl))" by simp
  then show ?thesis by (auto simp: get_queryset_def)
qed

lemma get_object_never_forbidden:
  "get_object u tbl pk \<noteq> Inl (PermissionDenied msg)"
proof
  assume a: "get_object u tbl pk = Inl (PermissionDenied msg)"
  show False
  proof (cases "get_object_or_404 task_id (get_queryset u tbl) pk")
    case (Inl r)
    with a have "r = PermissionDenied msg" by (simp add: get_object_def)
    with Inl show False
      by (auto simp: get_object_or_404_def PermissionDenied_def Http404_def
          MultipleObjectsReturned_def split: list.splits)
  next
    case (Inr t)
    then have "filter (\<lambda>x. task_id x = pk) (get_queryset u tbl) = [t]"
      by (auto simp: get_object_or_404_def split: list.splits)
    then have "t \<in> set (filter (\<lambda>x. task_id x = pk) (get_queryset u tbl))" by simp
    then have "user t = user_id u" by (simp add: get_queryset_def)
    with Inr a show False by (simp add: get_object_def IsOwner_def)
  qed
qed


lemma get_object_error:
  "get_object u tbl pk = Inl r \<Longrightarrow> status_code r \<noteq> 200 \<and> status_code r \<noteq> 201"
  by (auto simp: get_object_def get_object_or_404_def Http404_def MultipleObjectsReturned_def
      PermissionDenied_def split: sum.splits list.splits if_splits)







section \<open>Ownership masking of the task endpoints\<close>

text \<open>
  Claim C1. For an authenticated principal \<open>P\<close> and a task \<open>T\<close> owned by somebody else,
  GET, PATCH (description or toggle) and DELETE addressed to the id of \<open>T\<close> answer 404
  with the very response a request for an id that no task has gets, and leave the table
  as it is; looking a task up never answers 403.
\<close>

theorem task_access_masked:
  assumes "distinct (map task_id tbl)" and "T \<in> set tbl" and "user T \<noteq> user_id P"
    and "missing \<notin> task_id ` set tbl"
  shows "TaskDetailView (Authenticated P) (task_id T) tbl = (Http404, tbl)
       \<and> TaskDetailView (Authenticated P) missing tbl = (Http404, tbl)
       \<and> TaskUpdateDescriptionView now (Authenticated P) (task_id T) d tbl = (Http404, tbl)
       \<and> TaskUpdateDescriptionView now (Authenticated P) missing d tbl = (Http404, tbl)
       \<and> TaskToggleCompletionView now (Authenticated P) (task_id T) tbl = (Http404, tbl)
       \<and> TaskToggleCompletionView now (Authenticated P) missing tbl = (Http404, tbl)
       \<and> TaskDeleteView (Authenticated P) (task_id T) tbl = (Http404, tbl)
       \<and> TaskDeleteView (Authenticated P) missing tbl = (Http404, tbl)
       \<and> status_code Http404 = 404
       \<and> (\<forall>pk msg. get_object P tbl pk \<noteq> Inl (PermissionDenied msg))"
proof -
  have "\<forall>t\<in>set tbl. task_id t = task_id T \<longrightarrow> t = T"
    using assms(1,2) by (auto simp: distinct_map dest: inj_onD)
  then have "\<forall>t\<in>set tbl. task_id t = task_id T \<longrightarrow> user t \<noteq> user_id P"
    using assms(3) by auto
  then have a: "get_object P tbl (task_id T) = Inl Http404" by (rule get_object_masked)
  have "\<forall>t\<in>set tbl. task_id t = missing \<longrightarrow> user t \<noteq> user_id P"
    using assms(4) by auto
  then have b: "get_object P tbl missing = Inl Http404" by (rule get_object_masked)
  show ?thesis
    using a b get_object_never_forbidden
    by (simp add: TaskDetailView_def TaskUpdateDescriptionView_def TaskToggleCompletionView_def
        TaskDeleteView_def check_permissions_def Http404_def)
qed

theorem task_access_masked_witness:
  "TaskDetailView (Authenticated bob) 7 [milk] = (Http404, [milk])
   \<and> TaskDetailView (Authenticated bob) 8 [milk] = (Http404, [milk])
   \<and> TaskDeleteView (Authenticated bob) 7 [milk] = (Http404, [milk])"
proof -
  have "distinct (map task_id [milk])" by simp
  moreover have "milk \<in> set [milk]" by simp
  moreover have "user milk \<noteq> user_id bob" by (simp add: milk_def bob_def)
  moreover have "(8::int) \<notin> task_id ` set [milk]" by (simp add: milk_def)
  ultimately show ?thesis
    using task_access_masked [of "[milk]" milk bob 8 0 Map.empty] by (simp add: milk_def)
qed

section \<open>Toggling\<close>

text \<open>
  Claim C8. For a task \<open>t\<close> of the principal, a toggle flips \<open>completed\<close>, stores the
  flipped row and answers with the full representation of it; a second toggle on the
  resulting table brings \<open>completed\<close> back to its original value (only \<open>updated_at\<close>
  differs from the original row).
\<close>

theorem toggle_twice:
  assumes "distinct (map task_id tbl)" and "t \<in> set tbl" and "user t = user_id u"
  shows "TaskToggleCompletionView n1 (Authenticated u) (task_id t) tbl =
           (Response 200 (Data (TaskSerializer (t\<lparr>completed := \<not> completed t, updated_at := n1\<rparr>))),
            map (\<lambda>r. if task_id r = task_id t then t\<lparr>completed := \<not> completed t, updated_at := n1\<rparr> else r) tbl)
       \<and> TaskToggleCompletionView n2 (Authenticated u) (task_id t)
           (map (\<lambda>r. if task_id r = task_id t then t\<lparr>completed := \<not> completed t, updated_at := n1\<rparr> else r) tbl) =
           (Response 200 (Data (TaskSerializer (t\<lparr>updated_at := n2\<rparr>))),
            map (\<lambda>r. if task_id r = task_id t then t\<lparr>updated_at := n2\<rparr> else r) tbl)"
proof -
  let ?t1 = "t\<lparr>completed := \<not> completed t, updated_at := n1\<rparr>"
  let ?tbl1 = "map (\<lambda>r. if task_id r = task_id t then ?t1 else r) tbl"
  have g: "get_object u tbl (task_id t) = Inr t" using assms by (rule get_object_owner)
  have first: "TaskToggleCompletionView n1 (Authenticated u) (task_id t) tbl =
      (Response 200 (Data (TaskSerializer ?t1)), ?tbl1)"
    using g by (simp add: TaskToggleCompletionView_def check_permissions_def
        toggle_completion_def Task_save_def Let_def)
  have ids: "map task_id ?tbl1 = map task_id tbl" by (induction tbl) auto
  have d1: "distinct (map task_id ?tbl1)" using assms(1) by (simp only: ids)
  have m1: "?t1 \<in> set ?tbl1" using assms(2) by (auto simp: image_iff)
  have "get_object u ?tbl1 (task_id ?t1) = Inr ?t1"
    using d1 m1 assms(3) by (intro get_object_owner) simp_all
  then have g1: "get_object u ?tbl1 (task_id t) = Inr ?t1" by simp
  have undo: "map (\<lambda>r. if task_id r = task_id t then t\<lparr>updated_at := n2\<rparr> else r) ?tbl1
      = map (\<lambda>r. if task_id r = task_id t then t\<lparr>updated_at := n2\<rparr> else r) tbl"
    by (induction tbl) auto
  have second: "TaskToggleCompletionView n2 (Authenticated u) (task_id t) ?tbl1 =
      (Response 200 (Data (TaskSerializer (t\<lparr>updated_at := n2\<rparr>))),
       map (\<lambda>r. if task_id r = task_id t then t\<lparr>updated_at := n2\<rparr> else r) tbl)"
    using g1 undo by (simp add: TaskToggleCompletionView_def check_permissions_def
        toggle_completion_def Task_save_def Let_def)
  show ?thesis using first second by simp
qed

theorem toggle_twice_witness:
  "TaskToggleCompletionView 2000 (Authenticated alice) (task_id milk) [milk] =
     (Response 200 (Data (TaskSerializer (milk\<lparr>completed := \<not> completed milk, updated_at := 2000\<rparr>))),
      [milk\<lparr>completed := \<not> completed milk, updated_at := 2000\<rparr>])
   \<and> TaskToggleCompletionView 3000 (Authenticated alice) (task_id milk)
        [milk\<lparr>completed := \<not> completed milk, updated_at := 2000\<rparr>] =
     (Response 200 (Data (TaskSerializer (milk\<lparr>updated_at := 3000\<rparr>))), [milk\<lparr>updated_at := 3000\<rparr>])"
proof -
  have h1: "distinct (map task_id [milk])" by simp
  have h2: "milk \<in> set [milk]" by simp
  have h3: "user milk = user_id alice" by (simp add: milk_def alice_def)
  show ?thesis
    using toggle_twice [OF h1 h2 h3, of 2000 3000] by simp
qed


section \<open>Descriptions in the list\<close>







section \<open>Read-only fields of the task serializer\<close>

lemma is_valid_read_only:
  "TaskSerializer_is_valid partial (d(''completed'' := c, ''creation_time'' := ct, ''updated_at'' := ua))
     = TaskSerializer_is_valid partial d"
  by (simp add: TaskSerializer_is_valid_def)

lemma is_valid_error:
  "TaskSerializer_is_valid partial d = Inl r \<Longrightarrow> status_code r = 400"
  by (auto simp: TaskSerializer_is_valid_def ValidationError_def split: option.splits sum.splits if_splits)

lemma update_frame:
  assumes "distinct (map task_id tbl)"
  shows "map completed (snd (TaskUpdateDescriptionView now p pk d tbl)) = map completed tbl
       \<and> map creation_time (snd (TaskUpdateDescriptionView now p pk d tbl)) = map creation_time tbl"
proof (cases p)
  case AnonymousUser
  then show ?thesis by (simp add: TaskUpdateDescriptionView_def check_permissions_def)
next
  case (Authenticated u)
  show ?thesis
  proof (cases "get_object u tbl pk")
    case (Inl r)
    with Authenticated show ?thesis
      by (simp add: TaskUpdateDescriptionView_def check_permissions_def)
  next
    case (Inr t)
    note found = get_object_is_owned [OF Inr]
    have same: "\<And>r. r \<in> set tbl \<Longrightarrow> task_id r = task_id t \<Longrightarrow> r = t"
      using assms found by (auto simp: distinct_map dest: inj_onD)
    show ?thesis
    proof (cases "TaskSerializer_is_valid True d")
      case (Inl r)
      with Inr Authenticated show ?thesis
        by (simp add: TaskUpdateDescriptionView_def check_permissions_def)
    next
      case (Inr vd)
      define t' where "t' = (case vd of Some s \<Rightarrow> t\<lparr>description := s\<rparr> | None \<Rightarrow> t)\<lparr>updated_at := now\<rparr>"
      have t': "task_id t' = task_id t" "completed t' = completed t" "creation_time t' = creation_time t"
        by (simp_all add: t'_def split: option.splits)
      have res: "snd (TaskUpdateDescriptionView now p pk d tbl)
          = map (\<lambda>r. if task_id r = task_id t then t' else r) tbl"
        using Inr \<open>get_object u tbl pk = Inr t\<close> Authenticated
        by (simp add: TaskUpdateDescriptionView_def check_permissions_def Task_save_def Let_def
            t'_def split: option.splits)
      have "map completed (map (\<lambda>r. if task_id r = task_id t then t' else r) tbl) = map completed tbl"
        using same t' by (auto simp: map_idI)
      moreover have "map creation_time (map (\<lambda>r. if task_id r = task_id t then t' else r) tbl)
          = map creation_time tbl"
        using same t' by (auto simp: map_idI)
      ultimately show ?thesis using res by simp
    qed
  qed
qed

text \<open>
  Claim C7. On create and on update through \<open>TaskSerializer\<close> the keys \<open>completed\<close>,
  \<open>creation_time\<close> and \<open>updated_at\<close> of the payload are inert: whatever they hold (or
  whether they are there at all), the response and the table are the same. A task that was
  created has \<open>completed = False\<close> and both timestamps set by the system, and a description
  update leaves \<open>completed\<close> and \<open>creation_time\<close> of every row as they were.
\<close>

theorem task_read_only_fields:
  "TaskCreateView now new_id p (d(''completed'' := c, ''creation_time'' := ct, ''updated_at'' := ua)) tbl
     = TaskCreateView now new_id p d tbl
   \<and> TaskUpdateDescriptionView now p pk (d(''completed'' := c, ''creation_time'' := ct, ''updated_at'' := ua)) tbl
     = TaskUpdateDescriptionView now p pk d tbl
   \<and> (TaskCreateView now new_id p d tbl = (Response 201 b, tbl') \<longrightarrow>
        (\<exists>t. tbl' = tbl @ [t] \<and> b = Data (TaskSerializer t) \<and> \<not> completed t
           \<and> creation_time t = now \<and> updated_at t = now))
   \<and> (distinct (map task_id tbl) \<longrightarrow>
        map completed (snd (TaskUpdateDescriptionView now p pk d tbl)) = map completed tbl
        \<and> map creation_time (snd (TaskUpdateDescriptionView now p pk d tbl)) = map creation_time tbl)"
proof (intro conjI impI)
  show "TaskCreateView now new_id p (d(''completed'' := c, ''creation_time'' := ct, ''updated_at'' := ua)) tbl
     = TaskCreateView now new_id p d tbl"
    by (simp only: TaskCreateView_def is_valid_read_only)
  show "TaskUpdateDescriptionView now p pk (d(''completed'' := c, ''creation_time'' := ct, ''updated_at'' := ua)) tbl
     = TaskUpdateDescriptionView now p pk d tbl"
    by (simp only: TaskUpdateDescriptionView_def is_valid_read_only)
next
  assume a: "TaskCreateView now new_id p d tbl = (Response 201 b, tbl')"
  show "\<exists>t. tbl' = tbl @ [t] \<and> b = Data (TaskSerializer t) \<and> \<not> completed t
           \<and> creation_time t = now \<and> updated_at t = now"
  proof (cases p)
    case AnonymousUser
    with a show ?thesis by (simp add: TaskCreateView_def check_permissions_def NotAuthenticated_def)
  next
    case (Authenticated u)
    show ?thesis
    proof (cases "TaskSerializer_is_valid False d")
      case (Inl r)
      with a Authenticated have "r = Response 201 b"
        by (simp add: TaskCreateView_def check_permissions_def)
      with is_valid_error [OF Inl] show ?thesis by simp
    next
      case (Inr vd)
      with a Authenticated show ?thesis
        by (auto simp: TaskCreateView_def check_permissions_def Let_def)
    qed
  qed
next
  assume "distinct (map task_id tbl)"
  then show "map completed (snd (TaskUpdateDescriptionView now p pk d tbl)) = map completed tbl"
    and "map creation_time (snd (TaskUpdateDescriptionView now p pk d tbl)) = map creation_time tbl"
    using update_frame by blast+
qed

lemma create_done:
  "TaskCreateView 2000 8 (Authenticated alice) [''description'' \<mapsto> JString ''Call mum'', ''completed'' \<mapsto> JBool True] [milk]
    = (Response 201 (Data (TaskSerializer \<lparr>task_id = 8, user = 1, description = ''Call mum'',
          completed = False, creation_time = 2000, updated_at = 2000\<rparr>)),
       [milk, \<lparr>task_id = 8, user = 1, description = ''Call mum'',
          completed = False, creation_time = 2000, updated_at = 2000\<rparr>])"
  by (simp add: TaskCreateView_def check_permissions_def TaskSerializer_is_valid_def CharField_def
      strip_def is_space_def alice_def milk_def Let_def)

theorem task_read_only_fields_witness:
  "(\<exists>t. [milk, \<lparr>task_id = 8, user = 1, description = ''Call mum'', completed = False,
            creation_time = 2000, updated_at = 2000\<rparr>] = [milk] @ [t] \<and> \<not> completed t)
   \<and> map completed (snd (TaskUpdateDescriptionView 3000 (Authenticated alice) 7
         [''description'' \<mapsto> JString ''Buy oat milk'', ''completed'' \<mapsto> JBool True] [milk])) = [False]"
proof -
  have d: "distinct (map task_id [milk])" by simp
  note inst = task_read_only_fields [where now = 2000 and new_id = 8 and p = "Authenticated alice"
      and d = "[''description'' \<mapsto> JString ''Call mum'', ''completed'' \<mapsto> JBool True]"
      and tbl = "[milk]", THEN conjunct2, THEN conjunct2]
  have c: "\<exists>t. [milk, \<lparr>task_id = 8, user = 1, description = ''Call mum'', completed = False,
            creation_time = 2000, updated_at = 2000\<rparr>] = [milk] @ [t] \<and> \<not> completed t"
    using inst [THEN conjunct1] create_done by blast
  have u: "map completed (snd (TaskUpdateDescriptionView 3000 (Authenticated alice) 7
         [''description'' \<mapsto> JString ''Buy oat milk'', ''completed'' \<mapsto> JBool True] [milk])) = [False]"
    using task_read_only_fields [where now = 3000 and p = "Authenticated alice" and pk = 7
      and d = "[''description'' \<mapsto> JString ''Buy oat milk'', ''completed'' \<mapsto> JBool True]"
      and tbl = "[milk]"] d
    by (simp add: milk_def)
  show ?thesis using c u by blast
qed

section \<open>Filters\<close>

lemma CharFilter_eq:
  "CharFilter lookup val qs =
     filter (\<lambda>t. case val of None \<Rightarrow> True | Some v \<Rightarrow> v = [] \<or> lookup v t) qs"
  by (cases val) (simp_all add: CharFilter_def)

lemma ValueFilter_eq:
  "ValueFilter lookup val qs = filter (\<lambda>t. case val of None \<Rightarrow> True | Some v \<Rightarrow> lookup v t) qs"
  by (cases val) (simp_all add: ValueFilter_def)

lemma filter_created_on_eq:
  "filter_created_on tz qs d =
     filter (\<lambda>t. make_aware tz (combine d time_min) \<le> creation_time t
               \<and> creation_time t \<le> make_aware tz (combine d time_max)) qs"
  by (simp add: filter_created_on_def get_day_range_def Let_def)

lemma created_on_eq:
  "MethodFilter (filter_created_on tz) val qs =
     filter (\<lambda>t. case val of None \<Rightarrow> True
        | Some d \<Rightarrow> make_aware tz (combine d time_min) \<le> creation_time t
                   \<and> creation_time t \<le> make_aware tz (combine d time_max)) qs"
  by (cases val) (simp_all add: MethodFilter_def filter_created_on_eq)

lemma filter_filter_conj: "filter P (filter Q xs) = filter (\<lambda>x. Q x \<and> P x) xs"
  by (induction xs) auto

lemma TaskFilter_eq:
  "TaskFilter tz rx cd qs =
     filter (\<lambda>t.
         (case q_description cd of None \<Rightarrow> True | Some v \<Rightarrow> v = [] \<or> iexact v (description t))
       \<and> (case q_description__contains cd of None \<Rightarrow> True | Some v \<Rightarrow> v = [] \<or> icontains v (description t))
       \<and> (case q_description__startswith cd of None \<Rightarrow> True | Some v \<Rightarrow> v = [] \<or> istartswith v (description t))
       \<and> (case q_description__regex cd of None \<Rightarrow> True | Some v \<Rightarrow> v = [] \<or> rx v (description t))
       \<and> (case q_created_after cd of None \<Rightarrow> True | Some d \<Rightarrow> d \<le> local_date tz (creation_time t))
       \<and> (case q_created_before cd of None \<Rightarrow> True | Some d \<Rightarrow> local_date tz (creation_time t) \<le> d)
       \<and> (case q_created_on cd of None \<Rightarrow> True
           | Some d \<Rightarrow> make_aware tz (combine d time_min) \<le> creation_time t
                      \<and> creation_time t \<le> make_aware tz (combine d time_max))
       \<and> (case q_completed cd of None \<Rightarrow> True | Some b \<Rightarrow> completed t = b)) qs"
  unfolding TaskFilter_def Let_def CharFilter_eq ValueFilter_eq created_on_eq filter_filter_conj
  by (simp only: conj_assoc)

text \<open>
  Claim C6. For every base collection and every cleaned filter mapping, the filter set
  keeps exactly the elements that satisfy the predicate of every filter that carries a
  value, all at once; a filter without a value (absent, or the empty string, which the
  filter library skips as well) imposes nothing. With no filter the collection is
  returned as it is, and \<open>description__contains=Buy\<close> with \<open>completed=true\<close> gives the
  intersection of the two results.
\<close>

theorem filters_compose_with_and:
  "TaskFilter tz rx cd qs =
     filter (\<lambda>t.
         (case q_description cd of None \<Rightarrow> True | Some v \<Rightarrow> v = [] \<or> iexact v (description t))
       \<and> (case q_description__contains cd of None \<Rightarrow> True | Some v \<Rightarrow> v = [] \<or> icontains v (description t))
       \<and> (case q_description__startswith cd of None \<Rightarrow> True | Some v \<Rightarrow> v = [] \<or> istartswith v (description t))
       \<and> (case q_description__regex cd of None \<Rightarrow> True | Some v \<Rightarrow> v = [] \<or> rx v (description t))
       \<and> (case q_created_after cd of None \<Rightarrow> True | Some d \<Rightarrow> d \<le> local_date tz (creation_time t))
       \<and> (case q_created_before cd of None \<Rightarrow> True | Some d \<Rightarrow> local_date tz (creation_time t) \<le> d)
       \<and> (case q_created_on cd of None \<Rightarrow> True
           | Some d \<Rightarrow> make_aware tz (combine d time_min) \<le> creation_time t
                      \<and> creation_time t \<le> make_aware tz (combine d time_max))
       \<and> (case q_completed cd of None \<Rightarrow> True | Some b \<Rightarrow> completed t = b)) qs
   \<and> TaskFilter tz rx no_filters qs = qs
   \<and> set (TaskFilter tz rx (no_filters\<lparr>q_description__contains := Some ''Buy'', q_completed := Some True\<rparr>) qs)
       = set (TaskFilter tz rx (no_filters\<lparr>q_description__contains := Some ''Buy''\<rparr>) qs)
         \<inter> set (TaskFilter tz rx (no_filters\<lparr>q_completed := Some True\<rparr>) qs)"
proof -
  have none: "TaskFilter tz rx no_filters qs = qs"
    by (simp add: TaskFilter_eq no_filters_def)
  have inter: "set (TaskFilter tz rx (no_filters\<lparr>q_description__contains := Some ''Buy'', q_completed := Some True\<rparr>) qs)
       = set (TaskFilter tz rx (no_filters\<lparr>q_description__contains := Some ''Buy''\<rparr>) qs)
         \<inter> set (TaskFilter tz rx (no_filters\<lparr>q_completed := Some True\<rparr>) qs)"
    by (auto simp: TaskFilter_eq no_filters_def)
  show ?thesis using TaskFilter_eq [of tz rx cd qs] none inter by blast
qed

lemma lower_Buy: "lower ''Buy'' = ''buy''"
  by (simp add: lower_def lower_char_def)

lemma lower_samples:
  "lower ''Buy groceries'' = ''buy groceries''"
  "lower ''buy new laptop'' = ''buy new laptop''"
  "lower ''Call plumber'' = ''call plumber''"
  by (simp_all add: lower_def lower_char_def)

lemma icontains_samples:
  "icontains ''Buy'' ''Buy groceries''" "icontains ''Buy'' ''buy new laptop''"
  "\<not> icontains ''Buy'' ''Call plumber''"
  by (simp_all add: icontains_def lower_Buy lower_samples sublist_code)

theorem filters_compose_with_and_witness:
  "TaskFilter utc (\<lambda>p s. False)
     (no_filters\<lparr>q_description__contains := Some ''Buy'', q_completed := Some True\<rparr>)
     [groceries, laptop, plumber] = [groceries]
   \<and> TaskFilter utc (\<lambda>p s. False) (no_filters\<lparr>q_description__contains := Some ''Buy''\<rparr>)
     [groceries, laptop, plumber] = [groceries, laptop]
   \<and> TaskFilter utc (\<lambda>p s. False) (no_filters\<lparr>q_completed := Some True\<rparr>)
     [groceries, laptop, plumber] = [groceries, plumber]"
proof -
  have d: "description groceries = ''Buy groceries''" "description laptop = ''buy new laptop''"
      "description plumber = ''Call plumber''" "completed groceries" "\<not> completed laptop"
      "completed plumber"
    by (simp_all add: groceries_def laptop_def plumber_def)
  have a: "TaskFilter utc (\<lambda>p s. False)
     (no_filters\<lparr>q_description__contains := Some ''Buy'', q_completed := Some True\<rparr>)
     [groceries, laptop, plumber] = [groceries]"
    using filters_compose_with_and [of utc "\<lambda>p s. False"
        "no_filters\<lparr>q_description__contains := Some ''Buy'', q_completed := Some True\<rparr>"
        "[groceries, laptop, plumber]"]
    by (simp add: no_filters_def d icontains_samples)
  have b: "TaskFilter utc (\<lambda>p s. False) (no_filters\<lparr>q_description__contains := Some ''Buy''\<rparr>)
     [groceries, laptop, plumber] = [groceries, laptop]"
    using filters_compose_with_and [of utc "\<lambda>p s. False"
        "no_filters\<lparr>q_description__contains := Some ''Buy''\<rparr>" "[groceries, laptop, plumber]"]
    by (simp add: no_filters_def d icontains_samples)
  have c: "TaskFilter utc (\<lambda>p s. False) (no_filters\<lparr>q_completed := Some True\<rparr>)
     [groceries, laptop, plumber] = [groceries, plumber]"
    using filters_compose_with_and [of utc "\<lambda>p s. False"
        "no_filters\<lparr>q_completed := Some True\<rparr>" "[groceries, laptop, plumber]"]
    by (simp add: no_filters_def d)
  show ?thesis using a b c by simp
qed





section \<open>Access to user profiles\<close>

lemma digit_cases:
  assumes "d < (10::nat)"
  shows "d = 0 \<or> d = 1 \<or> d = 2 \<or> d = 3 \<or> d = 4 \<or> d = 5 \<or> d = 6 \<or> d = 7 \<or> d = 8 \<or> d = 9"
  using assms by arith

lemma digit_val_digit_char: "d < 10 \<Longrightarrow> digit_val (digit_char d) = Some d"
  using digit_cases [of d] by (auto simp: digit_val_def digit_char_def upt_rec)

lemma digit_char_not_sign: "d < 10 \<Longrightarrow> digit_char d \<noteq> CHR ''-'' \<and> digit_char d \<noteq> CHR ''+''"
  using digit_cases [of d] by (auto simp: digit_char_def)

lemma digit_val_underscore: "digit_val (CHR ''_'') = None"
  by (simp add: digit_val_def upt_rec)

lemma py_digits_append:
  "\<forall>c\<in>set xs. digit_val c \<noteq> None \<Longrightarrow>
   py_digits acc (xs @ ys) = (case py_digits acc xs of None \<Rightarrow> None | Some a \<Rightarrow> py_digits a ys)"
proof (induction xs arbitrary: acc)
  case Nil
  then show ?case by simp
next
  case (Cons c cs)
  then obtain v where v: "digit_val c = Some v" by auto
  then have "c \<noteq> CHR ''_''" using digit_val_underscore by auto
  with v Cons show ?case by simp
qed

lemma str_nat_digits: "\<forall>c\<in>set (str_nat n). digit_val c \<noteq> None"
proof (induction n rule: str_nat.induct)
  case (1 n)
  have "digit_val (digit_char (n mod 10)) = Some (n mod 10)" by (simp add: digit_val_digit_char)
  moreover have "n < 10 \<Longrightarrow> digit_val (digit_char n) = Some n" by (simp add: digit_val_digit_char)
  ultimately show ?case using "1.IH" by (cases "n < 10") (auto simp: str_nat.simps [of n])
qed

lemma py_digits_str_nat: "py_digits 0 (str_nat n) = Some n"
proof (induction n rule: str_nat.induct)
  case (1 n)
  show ?case
  proof (cases "n < 10")
    case True
    then have "digit_val (digit_char n) = Some n" by (rule digit_val_digit_char)
    moreover from this have "digit_char n \<noteq> CHR ''_''" using digit_val_underscore by auto
    ultimately show ?thesis using True by (simp add: str_nat.simps [of n])
  next
    case False
    have "n mod 10 < 10" by simp
    then have d: "digit_val (digit_char (n mod 10)) = Some (n mod 10)" by (rule digit_val_digit_char)
    then have u: "digit_char (n mod 10) \<noteq> CHR ''_''" using digit_val_underscore by auto
    from False "1.IH" d u show ?thesis
      by (simp add: str_nat.simps [of n] py_digits_append str_nat_digits)
  qed
qed

lemma str_nat_head: "\<exists>c cs. str_nat n = c # cs \<and> c \<noteq> CHR ''-'' \<and> c \<noteq> CHR ''+''"
proof (induction n rule: str_nat.induct)
  case (1 n)
  show ?case
  proof (cases "n < 10")
    case True
    then show ?thesis by (simp add: str_nat.simps [of n] digit_char_not_sign)
  next
    case False
    with "1.IH" obtain c cs where "str_nat (n div 10) = c # cs" "c \<noteq> CHR ''-''" "c \<noteq> CHR ''+''"
      by blast
    with False show ?thesis by (simp add: str_nat.simps [of n])
  qed
qed

lemma py_nat_str_nat: "py_nat (str_nat n) = Some n"
proof -
  obtain c cs where h: "str_nat n = c # cs" using str_nat_head by blast
  then have "c \<in> set (str_nat n)" by simp
  then obtain v where v: "digit_val c = Some v" using str_nat_digits by blast
  then have "c \<noteq> CHR ''_''" using digit_val_underscore by auto
  with v have "py_digits 0 (c # cs) = py_digits v cs" by simp
  with h v py_digits_str_nat [of n] show ?thesis by (simp add: py_nat_def)
qed

lemma digit_not_space: "digit_val c \<noteq> None \<Longrightarrow> \<not> is_space c"
  by (auto simp: digit_val_def is_space_def upt_rec split: if_splits)

lemma strip_no_space: "\<forall>c\<in>set s. \<not> is_space c \<Longrightarrow> strip s = s"
proof -
  assume a: "\<forall>c\<in>set s. \<not> is_space c"
  then have "dropWhile is_space s = s" by (cases s) auto
  moreover from a have "dropWhile is_space (rev s) = rev s" by (cases "rev s") (auto dest: arg_cong [where f = set])
  ultimately show ?thesis by (simp add: strip_def)
qed

lemma strip_str_int: "strip (str_int i) = str_int i"
proof -
  have "\<not> is_space (CHR ''-'')" by (simp add: is_space_def)
  then have "\<forall>c\<in>set (str_int i). \<not> is_space c"
    using str_nat_digits digit_not_space by (auto simp: str_int_def)
  then show ?thesis by (rule strip_no_space)
qed

lemma int_of_str_str_int: "int_of_str (str_int i) = Some i"
proof (cases "i < 0")
  case True
  then have "str_int i = CHR ''-'' # str_nat (nat (- i))" by (simp add: str_int_def)
  with True strip_str_int [of i] show ?thesis by (simp add: int_of_str_def py_nat_str_nat)
next
  case False
  obtain c cs where h: "str_nat (nat i) = c # cs" "c \<noteq> CHR ''-''" "c \<noteq> CHR ''+''"
    using str_nat_head by blast
  from False have s: "str_int i = c # cs" using h(1) by (simp add: str_int_def)
  have "py_nat (c # cs) = Some (nat i)" using py_nat_str_nat [of "nat i"] h(1) by simp
  with False h s strip_str_int [of i] show ?thesis by (simp add: int_of_str_def)
qed

lemma str_int_inj: "str_int i = str_int j \<longleftrightarrow> i = j"
  by (metis int_of_str_str_int option.inject)

lemma int_of_str_samples: "int_of_str ''1'' = Some 1" "int_of_str ''01'' = Some 1"
  by (simp_all add: int_of_str_def strip_def is_space_def py_nat_def digit_val_def upt_rec)

lemma int_of_str_forms:
  "int_of_str '' 2'' = Some 2" "int_of_str ''1_0'' = Some 10" "int_of_str ''+3 '' = Some 3"
  "int_of_str ''-12'' = Some (- 12)" "int_of_str ''1__0'' = None" "int_of_str ''_1'' = None"
  "int_of_str ''1_'' = None" "int_of_str ''- 1'' = None" "int_of_str ''abc'' = None"
  "int_of_str [] = None"
  by (simp_all add: int_of_str_def strip_def is_space_def py_nat_def digit_val_def upt_rec)

lemma str_int_samples: "str_int 1 = ''1''" "str_int 2 = ''2''" "str_int 3 = ''3''"
  by (simp_all add: str_int_def str_nat.simps digit_char_def)

lemma User_get_object_found:
  assumes "distinct (map user_id tbl)" and "U \<in> set tbl"
  shows "User_get_object P tbl (str_int (user_id U)) =
     (if is_staff P \<or> user_id U = user_id P then Inr U else Inl (PermissionDenied default_denied))"
  using assms
  by (simp add: User_get_object_def int_of_str_str_int get_object_or_404_found IsOwnerOrStaff_def
      IsOwner_def)

lemma UserUpdateSerializer_is_valid_error:
  "UserUpdateSerializer_is_valid V partial d = Inl r \<Longrightarrow> status_code r = 400"
  by (auto simp: UserUpdateSerializer_is_valid_def ValidationError_def Let_def split: sum.splits)

lemma update_allowed_status:
  assumes "User_get_object P (users db) pk = Inr U"
  shows "status_code (fst (UserProfileViewSet_update V partial (Authenticated P) pk d db)) = 200
       \<or> status_code (fst (UserProfileViewSet_update V partial (Authenticated P) pk d db)) = 400"
proof (cases "UserUpdateSerializer_is_valid V partial d")
  case (Inl r)
  with assms UserUpdateSerializer_is_valid_error [OF Inl] show ?thesis
    by (simp add: UserProfileViewSet_update_def check_permissions_def)
next
  case (Inr vd)
  with assms show ?thesis
    by (simp add: UserProfileViewSet_update_def check_permissions_def split: prod.splits)
qed

text \<open>
  What the profile views do for a stored user \<open>U\<close> at any URL segment that \<open>int\<close> reads as
  the id of \<open>U\<close>. Update and delete are allowed exactly when the principal is staff or is
  \<open>U\<close>, and a refusal is 403. Retrieve answers 200 when the principal is staff or the
  segment is literally \<open>str\<close> of the principal's id, and 403 otherwise.
\<close>

lemma profile_access_by_key:
  assumes "distinct (map user_id (users db))" and "U \<in> set (users db)"
    and "int_of_str pk = Some (user_id U)"
  shows "(is_staff P \<or> user_id U = user_id P \<longrightarrow>
           (status_code (fst (UserProfileViewSet_update V partial (Authenticated P) pk d db)) = 200
            \<or> status_code (fst (UserProfileViewSet_update V partial (Authenticated P) pk d db)) = 400)
         \<and> UserProfileViewSet_destroy (Authenticated P) pk db
             = (Response 204 NoContent,
                \<lparr>users = filter (\<lambda>r. user_id r \<noteq> user_id U) (users db),
                 tasks = filter (\<lambda>t. user t \<noteq> user_id U) (tasks db)\<rparr>))
       \<and> (\<not> (is_staff P \<or> user_id U = user_id P) \<longrightarrow>
           UserProfileViewSet_update V partial (Authenticated P) pk d db
             = (Response 403 (Detail default_denied), db)
         \<and> UserProfileViewSet_destroy (Authenticated P) pk db
             = (Response 403 (Detail default_denied), db))
       \<and> (is_staff P \<or> pk = str_int (user_id P) \<longrightarrow>
           UserProfileViewSet_retrieve (Authenticated P) pk db
             = (Response 200 (Data (UserSerializer U)), db))
       \<and> (\<not> (is_staff P \<or> pk = str_int (user_id P)) \<longrightarrow>
           UserProfileViewSet_retrieve (Authenticated P) pk db
             = (Response 403 (Detail ''You do not have permission to access this profile.''), db))"
proof -
  have g: "User_get_object P (users db) pk =
     (if is_staff P \<or> user_id U = user_id P then Inr U else Inl (PermissionDenied default_denied))"
    using assms
    by (simp add: User_get_object_def get_object_or_404_found IsOwnerOrStaff_def IsOwner_def)
  have 1: "(status_code (fst (UserProfileViewSet_update V partial (Authenticated P) pk d db)) = 200
            \<or> status_code (fst (UserProfileViewSet_update V partial (Authenticated P) pk d db)) = 400)
         \<and> UserProfileViewSet_destroy (Authenticated P) pk db
             = (Response 204 NoContent,
                \<lparr>users = filter (\<lambda>r. user_id r \<noteq> user_id U) (users db),
                 tasks = filter (\<lambda>t. user t \<noteq> user_id U) (tasks db)\<rparr>)"
    if ok: "is_staff P \<or> user_id U = user_id P"
  proof -
    from g ok have g': "User_get_object P (users db) pk = Inr U" by simp
    then show ?thesis
      using update_allowed_status [OF g']
      by (simp add: UserProfileViewSet_destroy_def check_permissions_def)
  qed
  have 2: "UserProfileViewSet_update V partial (Authenticated P) pk d db
             = (Response 403 (Detail default_denied), db)
         \<and> UserProfileViewSet_destroy (Authenticated P) pk db
             = (Response 403 (Detail default_denied), db)"
    if no: "\<not> (is_staff P \<or> user_id U = user_id P)"
    using g no
    by (simp add: UserProfileViewSet_update_def UserProfileViewSet_destroy_def
        check_permissions_def PermissionDenied_def)
  have 3: "UserProfileViewSet_retrieve (Authenticated P) pk db
             = (Response 200 (Data (UserSerializer U)), db)"
    if ok: "is_staff P \<or> pk = str_int (user_id P)"
  proof -
    have "is_staff P \<or> user_id U = user_id P"
      using ok assms(3) by (auto simp: int_of_str_str_int)
    with g have "User_get_object P (users db) pk = Inr U" by simp
    with ok show ?thesis
      by (auto simp: UserProfileViewSet_retrieve_def check_permissions_def)
  qed
  have 4: "UserProfileViewSet_retrieve (Authenticated P) pk db
             = (Response 403 (Detail ''You do not have permission to access this profile.''), db)"
    if no: "\<not> (is_staff P \<or> pk = str_int (user_id P))"
    using no by (auto simp: UserProfileViewSet_retrieve_def check_permissions_def PermissionDenied_def)
  show ?thesis using 1 2 3 4 by blast
qed

text \<open>
  Claim C4: a retrieve, update, partial update or delete on the profile of \<open>U\<close> is allowed
  iff the principal is staff or is \<open>U\<close>, and a refusal is 403. The guard of \<open>retrieve\<close>
  breaks this: it compares the URL segment with \<open>str(user.id)\<close> as strings, while the
  lookup converts the segment to an integer. At the segment \<open>01\<close>, which \<open>int\<close> reads as
  1, the non-staff user 1 is refused its own profile by retrieve (403), although partial
  update and delete at the same segment let it through, as retrieve does at \<open>1\<close>.
\<close>

theorem retrieve_refuses_owner_at_padded_key:
  "int_of_str ''01'' = Some (user_id alice) \<and> \<not> is_staff alice
   \<and> UserProfileViewSet_retrieve (Authenticated alice) ''01'' db0
     = (Response 403 (Detail ''You do not have permission to access this profile.''), db0)
   \<and> UserProfileViewSet_retrieve (Authenticated alice) ''1'' db0
     = (Response 200 (Data (UserSerializer alice)), db0)
   \<and> UserProfileViewSet_update V0 True (Authenticated alice) ''01'' Map.empty db0
     = (Response 200 (Data (UserUpdateSerializer alice)), db0)
   \<and> UserProfileViewSet_destroy (Authenticated alice) ''01'' db0
     = (Response 204 NoContent, \<lparr>users = [bob, carol], tasks = []\<rparr>)"
  by (simp add: UserProfileViewSet_retrieve_def UserProfileViewSet_update_def
      UserProfileViewSet_destroy_def check_permissions_def User_get_object_def
      get_object_or_404_def IsOwnerOrStaff_def IsOwner_def PermissionDenied_def
      UserUpdateSerializer_is_valid_def get_value_def UserUpdateSerializer_update_def User_save_def
      int_of_str_samples str_int_samples db0_def alice_def bob_def carol_def milk_def Let_def)

section \<open>The user list\<close>

lemma UserFilter_none: "UserFilter no_user_filters qs = qs"
  by (simp add: UserFilter_def no_user_filters_def CharFilter_def)

text \<open>
  Claim C3. The base collection of the user list is the whole table when the principal is
  staff or superuser, and otherwise the single row of the principal (ids being unique and
  the principal a row of the table): a regular user who lists users without filters gets
  a count of 1 and its own representation, a staff user gets a page of all users.
\<close>

theorem user_list_visibility:
  "(is_staff P \<or> is_superuser P \<longrightarrow>
      UserList_get_queryset P tbl = tbl
      \<and> UserListViewSet ps (Authenticated P) no_user_filters page tbl
           = paginate ps page (map UserSerializer tbl))
   \<and> (\<not> (is_staff P \<or> is_superuser P) \<and> distinct (map user_id tbl) \<and> P \<in> set tbl \<longrightarrow>
      UserList_get_queryset P tbl = [P]
      \<and> (0 < ps \<longrightarrow> UserListViewSet ps (Authenticated P) no_user_filters 1 tbl
             = Response 200 (Results 1 [UserSerializer P])))"
proof (intro conjI impI)
  assume s: "is_staff P \<or> is_superuser P"
  then show all: "UserList_get_queryset P tbl = tbl" by (auto simp: UserList_get_queryset_def)
  show "UserListViewSet ps (Authenticated P) no_user_filters page tbl
           = paginate ps page (map UserSerializer tbl)"
    by (simp add: UserListViewSet_def check_permissions_def UserFilter_none all)
next
  assume r: "\<not> (is_staff P \<or> is_superuser P) \<and> distinct (map user_id tbl) \<and> P \<in> set tbl"
  then have "filter (\<lambda>x. user_id x = user_id P) tbl = [P]" by (simp add: filter_key_distinct)
  with r show one: "UserList_get_queryset P tbl = [P]" by (simp add: UserList_get_queryset_def)
  assume "0 < ps"
  then show "UserListViewSet ps (Authenticated P) no_user_filters 1 tbl
             = Response 200 (Results 1 [UserSerializer P])"
    by (simp add: UserListViewSet_def check_permissions_def UserFilter_none one paginate_def)
qed

theorem user_list_visibility_witness:
  "UserListViewSet 10 (Authenticated alice) no_user_filters 1 [alice, bob, carol]
     = Response 200 (Results 1 [UserSerializer alice])
   \<and> UserListViewSet 10 (Authenticated carol) no_user_filters 1 [alice, bob, carol]
     = Response 200 (Results 3 [UserSerializer alice, UserSerializer bob, UserSerializer carol])"
proof -
  have a: "\<not> (is_staff alice \<or> is_superuser alice) \<and> distinct (map user_id [alice, bob, carol])
      \<and> alice \<in> set [alice, bob, carol]"
    by (simp add: alice_def bob_def carol_def)
  have c: "is_staff carol \<or> is_superuser carol" by (simp add: carol_def)
  have 1: "UserListViewSet 10 (Authenticated alice) no_user_filters 1 [alice, bob, carol]
     = Response 200 (Results 1 [UserSerializer alice])"
    using user_list_visibility [of alice "[alice, bob, carol]" 10] a by simp
  have 2: "UserListViewSet 10 (Authenticated carol) no_user_filters 1 [alice, bob, carol]
     = Response 200 (Results 3 [UserSerializer alice, UserSerializer bob, UserSerializer carol])"
    using user_list_visibility [of carol "[alice, bob, carol]" 10 1] c by (simp add: paginate_def)
  show ?thesis using 1 2 by blast
qed

section \<open>Registration\<close>

lemma UserCreateSerializer_is_valid_error:
  assumes "UserCreateSerializer_is_valid V tbl d = Inl r"
  shows "status_code r = 400"
proof -
  obtain errs where "r = ValidationError errs"
    using assms unfolding UserCreateSerializer_is_valid_def Let_def
    by (auto split: sum.splits option.splits)
  then show ?thesis by (simp add: ValidationError_def)
qed

lemma UserCreateSerializer_is_valid_active:
  assumes "UserCreateSerializer_is_valid V tbl d = Inr vd"
  shows "vc_is_active vd = (case d ''is_active'' of None \<Rightarrow> True | Some v \<Rightarrow> BooleanField v = Inr True)"
proof -
  obtain a where a: "get_value False False BooleanField (d ''is_active'') = Inr a"
      "vc_is_active vd = (case a of None \<Rightarrow> True | Some b \<Rightarrow> b)"
    using assms unfolding UserCreateSerializer_is_valid_def Let_def
    by (auto split: sum.splits option.splits)
  then show ?thesis
    by (auto simp: get_value_def split: option.splits sum.splits)
qed

text \<open>
  Claim C9, as the code has it. A registration that succeeds (201) appends one user whose
  role flags \<open>is_staff\<close> and \<open>is_superuser\<close> are false and whose \<open>is_active\<close> is the value the
  payload gives for \<open>is_active\<close>, true when the payload has none; the response is the
  representation of that user and has no \<open>password\<close> key.
\<close>

theorem registration_creates_regular_user:
  "UserRegistrationViewSet V new_id d db = (Response 201 b, db') \<longrightarrow>
     (\<exists>u. users db' = users db @ [u] \<and> tasks db' = tasks db \<and> b = Data (UserCreateSerializer u)
        \<and> \<not> is_staff u \<and> \<not> is_superuser u
        \<and> is_active u = (case d ''is_active'' of None \<Rightarrow> True | Some v \<Rightarrow> BooleanField v = Inr True)
        \<and> ''password'' \<notin> fst ` set (UserCreateSerializer u))"
proof
  assume a: "UserRegistrationViewSet V new_id d db = (Response 201 b, db')"
  show "\<exists>u. users db' = users db @ [u] \<and> tasks db' = tasks db \<and> b = Data (UserCreateSerializer u)
        \<and> \<not> is_staff u \<and> \<not> is_superuser u
        \<and> is_active u = (case d ''is_active'' of None \<Rightarrow> True | Some v \<Rightarrow> BooleanField v = Inr True)
        \<and> ''password'' \<notin> fst ` set (UserCreateSerializer u)"
  proof (cases "UserCreateSerializer_is_valid V (users db) d")
    case (Inl r)
    with a have "r = Response 201 b" by (simp add: UserRegistrationViewSet_def)
    with UserCreateSerializer_is_valid_error [OF Inl] show ?thesis by simp
  next
    case (Inr vd)
    let ?u = "UserCreateSerializer_create vd new_id"
    from a Inr have "db' = db\<lparr>users := users db @ [?u]\<rparr>" "b = Data (UserCreateSerializer ?u)"
      by (simp_all add: UserRegistrationViewSet_def Let_def)
    moreover have "\<not> is_staff ?u" "\<not> is_superuser ?u" "is_active ?u = vc_is_active vd"
      by (simp_all add: UserCreateSerializer_create_def)
    moreover have "''password'' \<notin> fst ` set (UserCreateSerializer ?u)"
      by (simp add: UserCreateSerializer_def)
    ultimately show ?thesis
      using UserCreateSerializer_is_valid_active [OF Inr] by auto
  qed
qed

lemma signup_valid:
  "UserCreateSerializer_is_valid V0 [alice, bob, carol] signup =
     Inr \<lparr>vc_username = ''dave'', vc_email = Some ''dave@example.com'', vc_first_name = None,
          vc_last_name = None, vc_password = ''StrongP@ssword123'', vc_is_active = True\<rparr>"
  by (simp add: UserCreateSerializer_is_valid_def signup_def get_value_def username_field_def
      email_field_def name_field_def password_field_def run_validators_def CharField_def strip_def
      is_space_def V0_def alice_def bob_def carol_def Let_def)

lemma signup_inactive_valid:
  "UserCreateSerializer_is_valid V0 [alice, bob, carol] (signup(''is_active'' \<mapsto> JBool False)) =
     Inr \<lparr>vc_username = ''dave'', vc_email = Some ''dave@example.com'', vc_first_name = None,
          vc_last_name = None, vc_password = ''StrongP@ssword123'', vc_is_active = False\<rparr>"
  by (simp add: UserCreateSerializer_is_valid_def signup_def get_value_def username_field_def
      email_field_def name_field_def password_field_def run_validators_def CharField_def strip_def
      is_space_def BooleanField_def V0_def alice_def bob_def carol_def Let_def)

lemma register_dave:
  "UserRegistrationViewSet V0 4 signup db0
     = (Response 201 (Data (UserCreateSerializer dave)), db0\<lparr>users := [alice, bob, carol, dave]\<rparr>)"
  by (simp add: UserRegistrationViewSet_def db0_def signup_valid UserCreateSerializer_create_def
      dave_def Let_def)

theorem registration_creates_regular_user_witness:
  "\<exists>u. [alice, bob, carol, dave] = [alice, bob, carol] @ [u] \<and> \<not> is_staff u \<and> \<not> is_superuser u
      \<and> is_active u \<and> ''password'' \<notin> fst ` set (UserCreateSerializer u)"
  using registration_creates_regular_user [of V0 4 signup db0 "Data (UserCreateSerializer dave)"
      "db0\<lparr>users := [alice, bob, carol, dave]\<rparr>"] register_dave
  by (simp add: db0_def signup_def)

text \<open>
  The claim as stated (every registered user is active) fails: \<open>is_active\<close> is a writable
  field of \<open>UserCreateSerializer\<close>, and a payload with \<open>is_active = false\<close> registers an
  inactive user.
\<close>

theorem registration_inactive_counterexample:
  "UserRegistrationViewSet V0 4 (signup(''is_active'' \<mapsto> JBool False)) db0
     = (Response 201 (Data (UserCreateSerializer (dave\<lparr>is_active := False\<rparr>))),
        db0\<lparr>users := [alice, bob, carol, dave\<lparr>is_active := False\<rparr>]\<rparr>)
   \<and> is_active (dave\<lparr>is_active := False\<rparr>) = False"
  by (simp add: UserRegistrationViewSet_def db0_def signup_inactive_valid
      UserCreateSerializer_create_def dave_def Let_def)

section \<open>Updating a profile\<close>

lemma UserUpdateSerializer_is_valid_ignores:
  "UserUpdateSerializer_is_valid V partial (d(''is_staff'' := x, ''is_superuser'' := y, ''username'' := z))
     = UserUpdateSerializer_is_valid V partial d"
  by (simp add: UserUpdateSerializer_is_valid_def)

lemma UserUpdateSerializer_is_valid_nothing:
  assumes "d ''email'' = None" "d ''first_name'' = None" "d ''last_name'' = None" "d ''password'' = None"
  shows "UserUpdateSerializer_is_valid V True d =
           Inr \<lparr>vd_email = None, vd_first_name = None, vd_last_name = None, vd_password = None\<rparr>"
    and "UserUpdateSerializer_is_valid V False d = Inl (ValidationError [''password''])"
  using assms
  by (simp_all add: UserUpdateSerializer_is_valid_def get_value_def errors_of_def is_error_def)

lemma User_get_object_row:
  assumes "User_get_object P tbl pk = Inr U"
  shows "U \<in> set tbl"
proof -
  obtain k where "get_object_or_404 user_id tbl k = Inr U"
    using assms by (auto simp: User_get_object_def split: option.splits sum.splits if_splits)
  then have "filter (\<lambda>x. user_id x = k) tbl = [U]"
    by (auto simp: get_object_or_404_def split: list.splits)
  then have "U \<in> set (filter (\<lambda>x. user_id x = k) tbl)" by simp
  then show ?thesis by simp
qed

lemma User_save_same:
  assumes "distinct (map user_id tbl)" and "U \<in> set tbl"
  shows "User_save U tbl = tbl"
proof -
  have "\<And>r. r \<in> set tbl \<Longrightarrow> user_id r = user_id U \<Longrightarrow> r = U"
    using assms by (auto simp: distinct_map dest: inj_onD)
  then show ?thesis unfolding User_save_def by (intro map_idI) auto
qed

lemma User_save_frame:
  assumes "distinct (map user_id tbl)" and "U \<in> set tbl" and "user_id U' = user_id U"
    and "f U' = f U"
  shows "map f (User_save U' tbl) = map f tbl"
proof -
  have "\<And>r. r \<in> set tbl \<Longrightarrow> user_id r = user_id U \<Longrightarrow> r = U"
    using assms(1,2) by (auto simp: distinct_map dest: inj_onD)
  then show ?thesis using assms(3,4) by (auto simp: User_save_def)
qed

lemma UserUpdateSerializer_update_keeps:
  "user_id (fst (UserUpdateSerializer_update U vd tbl)) = user_id U"
  "username (fst (UserUpdateSerializer_update U vd tbl)) = username U"
  "is_staff (fst (UserUpdateSerializer_update U vd tbl)) = is_staff U"
  "is_superuser (fst (UserUpdateSerializer_update U vd tbl)) = is_superuser U"
  "is_active (fst (UserUpdateSerializer_update U vd tbl)) = is_active U"
  "snd (UserUpdateSerializer_update U vd tbl) = User_save (fst (UserUpdateSerializer_update U vd tbl)) tbl"
  by (simp_all add: UserUpdateSerializer_update_def Let_def split: option.splits)

lemma profile_update_result:
  "UserProfileViewSet_update V partial p pk d db = (r, db') \<Longrightarrow>
     db' = db \<or> (\<exists>P U vd. p = Authenticated P \<and> User_get_object P (users db) pk = Inr U
                  \<and> UserUpdateSerializer_is_valid V partial d = Inr vd
                  \<and> r = Response 200 (Data (UserUpdateSerializer (fst (UserUpdateSerializer_update U vd (users db)))))
                  \<and> db' = db\<lparr>users := snd (UserUpdateSerializer_update U vd (users db))\<rparr>)"
  by (auto simp: UserProfileViewSet_update_def check_permissions_def
      split: principal.splits sum.splits prod.splits)

lemma profile_update_frame:
  assumes "distinct (map user_id (users db))"
    and "\<And>U vd tbl. f (fst (UserUpdateSerializer_update U vd tbl)) = f U"
  shows "map f (users (snd (UserProfileViewSet_update V partial p pk d db))) = map f (users db)"
proof -
  obtain r db' where res: "UserProfileViewSet_update V partial p pk d db = (r, db')"
    by (cases "UserProfileViewSet_update V partial p pk d db")
  from profile_update_result [OF res] show ?thesis
  proof
    assume "db' = db"
    with res show ?thesis by simp
  next
    assume "\<exists>P U vd. p = Authenticated P \<and> User_get_object P (users db) pk = Inr U
                  \<and> UserUpdateSerializer_is_valid V partial d = Inr vd
                  \<and> r = Response 200 (Data (UserUpdateSerializer (fst (UserUpdateSerializer_update U vd (users db)))))
                  \<and> db' = db\<lparr>users := snd (UserUpdateSerializer_update U vd (users db))\<rparr>"
    then obtain P U vd where g: "User_get_object P (users db) pk = Inr U"
      and db': "db' = db\<lparr>users := snd (UserUpdateSerializer_update U vd (users db))\<rparr>"
      by blast
    have "U \<in> set (users db)" using g by (rule User_get_object_row)
    then have "map f (User_save (fst (UserUpdateSerializer_update U vd (users db))) (users db)) = map f (users db)"
      using assms by (intro User_save_frame [where U = U]) (simp_all add: UserUpdateSerializer_update_keeps)
    with res db' show ?thesis by (simp add: UserUpdateSerializer_update_keeps(6))
  qed
qed

lemma profile_update_tasks:
  "tasks (snd (UserProfileViewSet_update V partial p pk d db)) = tasks db"
proof -
  obtain r db' where res: "UserProfileViewSet_update V partial p pk d db = (r, db')"
    by (cases "UserProfileViewSet_update V partial p pk d db")
  from profile_update_result [OF res] have "tasks db' = tasks db" by auto
  with res show ?thesis by simp
qed

text \<open>
  Claim C2, as the code has it. For a user \<open>P\<close> updating its own profile (PUT or PATCH),
  the keys \<open>is_staff\<close>, \<open>is_superuser\<close> and \<open>username\<close> of the payload are inert: with or
  without them the response and the database are the same. The request is answered 200
  exactly when the four fields of \<open>UserUpdateSerializer\<close> validate: a partial update whose
  payload has none of them succeeds and changes nothing, a full update without a password
  is answered 400. In every case \<open>is_staff\<close>, \<open>is_superuser\<close>, \<open>username\<close>, the id and
  \<open>is_active\<close> of every stored user, and all tasks, stay as they were.
\<close>

theorem self_update_cannot_escalate:
  assumes "distinct (map user_id (users db))" and "P \<in> set (users db)"
  shows "UserProfileViewSet_update V partial (Authenticated P) (str_int (user_id P))
           (d(''is_staff'' := x, ''is_superuser'' := y, ''username'' := z)) db
         = UserProfileViewSet_update V partial (Authenticated P) (str_int (user_id P)) d db
       \<and> (status_code (fst (UserProfileViewSet_update V partial (Authenticated P) (str_int (user_id P)) d db)) = 200
            \<longleftrightarrow> (\<exists>vd. UserUpdateSerializer_is_valid V partial d = Inr vd))
       \<and> (d ''email'' = None \<and> d ''first_name'' = None \<and> d ''last_name'' = None \<and> d ''password'' = None \<longrightarrow>
            UserProfileViewSet_update V True (Authenticated P) (str_int (user_id P)) d db
              = (Response 200 (Data (UserUpdateSerializer P)), db)
            \<and> UserProfileViewSet_update V False (Authenticated P) (str_int (user_id P)) d db
              = (Response 400 (Errors [''password'']), db))
       \<and> map is_staff (users (snd (UserProfileViewSet_update V partial (Authenticated P) (str_int (user_id P)) d db)))
           = map is_staff (users db)
       \<and> map is_superuser (users (snd (UserProfileViewSet_update V partial (Authenticated P) (str_int (user_id P)) d db)))
           = map is_superuser (users db)
       \<and> map username (users (snd (UserProfileViewSet_update V partial (Authenticated P) (str_int (user_id P)) d db)))
           = map username (users db)
       \<and> map user_id (users (snd (UserProfileViewSet_update V partial (Authenticated P) (str_int (user_id P)) d db)))
           = map user_id (users db)
       \<and> map is_active (users (snd (UserProfileViewSet_update V partial (Authenticated P) (str_int (user_id P)) d db)))
           = map is_active (users db)
       \<and> tasks (snd (UserProfileViewSet_update V partial (Authenticated P) (str_int (user_id P)) d db)) = tasks db"
proof -
  have g: "User_get_object P (users db) (str_int (user_id P)) = Inr P"
    using assms by (simp add: User_get_object_found)
  have 1: "UserProfileViewSet_update V partial (Authenticated P) (str_int (user_id P))
           (d(''is_staff'' := x, ''is_superuser'' := y, ''username'' := z)) db
         = UserProfileViewSet_update V partial (Authenticated P) (str_int (user_id P)) d db"
    by (simp only: UserProfileViewSet_update_def UserUpdateSerializer_is_valid_ignores)
  have 2: "status_code (fst (UserProfileViewSet_update V partial (Authenticated P) (str_int (user_id P)) d db)) = 200
            \<longleftrightarrow> (\<exists>vd. UserUpdateSerializer_is_valid V partial d = Inr vd)"
  proof (cases "UserUpdateSerializer_is_valid V partial d")
    case (Inl r)
    with g UserUpdateSerializer_is_valid_error [OF Inl] show ?thesis
      by (simp add: UserProfileViewSet_update_def check_permissions_def)
  next
    case (Inr vd)
    with g show ?thesis
      by (simp add: UserProfileViewSet_update_def check_permissions_def split: prod.splits)
  qed
  have 3: "UserProfileViewSet_update V True (Authenticated P) (str_int (user_id P)) d db
              = (Response 200 (Data (UserUpdateSerializer P)), db)
            \<and> UserProfileViewSet_update V False (Authenticated P) (str_int (user_id P)) d db
              = (Response 400 (Errors [''password'']), db)"
    if n: "d ''email'' = None \<and> d ''first_name'' = None \<and> d ''last_name'' = None \<and> d ''password'' = None"
  proof -
    have "User_save P (users db) = users db" using assms by (rule User_save_same)
    then show ?thesis
      using n g
      by (simp add: UserProfileViewSet_update_def check_permissions_def
          UserUpdateSerializer_is_valid_nothing UserUpdateSerializer_update_def ValidationError_def)
  qed
  have f1: "map is_staff (users (snd (UserProfileViewSet_update V partial (Authenticated P) (str_int (user_id P)) d db)))
           = map is_staff (users db)"
    by (rule profile_update_frame [OF assms(1)]) (simp add: UserUpdateSerializer_update_keeps)
  have f2: "map is_superuser (users (snd (UserProfileViewSet_update V partial (Authenticated P) (str_int (user_id P)) d db)))
           = map is_superuser (users db)"
    by (rule profile_update_frame [OF assms(1)]) (simp add: UserUpdateSerializer_update_keeps)
  have f3: "map username (users (snd (UserProfileViewSet_update V partial (Authenticated P) (str_int (user_id P)) d db)))
           = map username (users db)"
    by (rule profile_update_frame [OF assms(1)]) (simp add: UserUpdateSerializer_update_keeps)
  have f4: "map user_id (users (snd (UserProfileViewSet_update V partial (Authenticated P) (str_int (user_id P)) d db)))
           = map user_id (users db)"
    by (rule profile_update_frame [OF assms(1)]) (simp add: UserUpdateSerializer_update_keeps)
  have f5: "map is_active (users (snd (UserProfileViewSet_update V partial (Authenticated P) (str_int (user_id P)) d db)))
           = map is_active (users db)"
    by (rule profile_update_frame [OF assms(1)]) (simp add: UserUpdateSerializer_update_keeps)
  have f6: "tasks (snd (UserProfileViewSet_update V partial (Authenticated P) (str_int (user_id P)) d db)) = tasks db"
    by (rule profile_update_tasks)
  show ?thesis
    using 1 2 3 f1 f2 f3 f4 f5 f6 by blast
qed

theorem self_update_cannot_escalate_witness:
  "UserProfileViewSet_update V0 True (Authenticated alice) ''1'' escalate db0
     = (Response 200 (Data (UserUpdateSerializer alice)), db0)
   \<and> map is_staff (users (snd (UserProfileViewSet_update V0 True (Authenticated alice) ''1'' escalate db0)))
       = [False, False, True]"
proof -
  have d: "distinct (map user_id (users db0))"
    by (simp add: db0_def alice_def bob_def carol_def)
  have a: "alice \<in> set (users db0)" by (simp add: db0_def)
  have n: "escalate ''email'' = None \<and> escalate ''first_name'' = None \<and> escalate ''last_name'' = None
      \<and> escalate ''password'' = None"
    by (simp add: escalate_def)
  have id: "str_int (user_id alice) = ''1''" by (simp add: alice_def str_int_samples)
  have 1: "UserProfileViewSet_update V0 True (Authenticated alice) ''1'' escalate db0
     = (Response 200 (Data (UserUpdateSerializer alice)), db0)"
    using self_update_cannot_escalate [OF d a, of V0 True escalate] n by (simp add: id)
  have "map is_staff (users db0) = [False, False, True]"
    by (simp add: db0_def alice_def bob_def carol_def)
  then have 2: "map is_staff (users (snd (UserProfileViewSet_update V0 True (Authenticated alice) ''1'' escalate db0)))
       = [False, False, True]"
    using self_update_cannot_escalate [OF d a, of V0 True escalate] by (simp add: id)
  show ?thesis using 1 2 by blast
qed

text \<open>
  The claim as stated (the request succeeds, for a full update too) fails: a PUT whose
  payload holds only the role flags lacks the required password and is refused.
\<close>

theorem full_update_without_password_counterexample:
  "UserProfileViewSet_update V0 False (Authenticated alice) ''1''
     [''is_staff'' \<mapsto> JBool True, ''is_superuser'' \<mapsto> JBool True] db0
     = (Response 400 (Errors [''password'']), db0)"
  by (simp add: UserProfileViewSet_update_def check_permissions_def User_get_object_def
      get_object_or_404_def IsOwnerOrStaff_def IsOwner_def UserUpdateSerializer_is_valid_def
      get_value_def errors_of_def is_error_def ValidationError_def int_of_str_samples
      db0_def alice_def bob_def carol_def)

end
